theory Spec2Isabelle
  imports Main "HOL-Library.AList"
begin

section \<open>The delegated operation service of fiftyone/operators/delegated.py\<close>

text \<open>
  The service class \<^verbatim>\<open>DelegatedOperationService\<close> holds one attribute, the repository
  \<^verbatim>\<open>self._repo\<close>, and reaches two more collaborators: the operator resolver
  \<^verbatim>\<open>prepare_operator_executor\<close> and the logger. Its methods are modelled as functions
  that take the world (the repository's documents and the log of the calls made to the
  collaborators) and return the value or the raised exception together with the new
  world. A Python exception is the \<open>Inl\<close> branch of a sum.
\<close>

subsection \<open>Data model\<close>

text \<open>
  Modelled from the spec: the classes \<^verbatim>\<open>ExecutionRunState\<close>, \<^verbatim>\<open>ExecutionContext\<close>,
  \<^verbatim>\<open>ExecutionResult\<close>, \<^verbatim>\<open>DelegatedOperationDocument\<close> and \<^verbatim>\<open>DelegatedOpPagingParams\<close>
  are imported by the source and are not among the sources. Their fields here are the
  attributes the source reads and writes and those the spec's data model lists.
\<close>

type_synonym ObjectId = nat

datatype ExecutionRunState = QUEUED | RUNNING | COMPLETED | FAILED

text \<open>Values of request parameters: strings and object ids.\<close>

datatype param_value = StrVal string | IdVal ObjectId

text \<open>A Python dict with string keys: an association list, updated in place by key.\<close>

type_synonym request_dict = "(string \<times> param_value) list"

record ExecutionContext =
  request_params :: request_dict

text \<open>
  \<^verbatim>\<open>ExecutionResult\<close>: a success payload or an error trace. The source builds it by
  keyword, \<^verbatim>\<open>ExecutionResult(error=...)\<close>.
\<close>

datatype ExecutionResult = ExecutionResult (payload: "request_dict option") (error: "string option")

text \<open>
  An instance of Python's \<^verbatim>\<open>Exception\<close> class (what \<^verbatim>\<open>except Exception\<close> catches),
  with the text that \<^verbatim>\<open>traceback.format_exc()\<close> renders while it is being handled.
\<close>

datatype py_exception = PyException (format_exc: string)

definition NotFound :: py_exception where
  "NotFound = PyException ''NotFound''"

definition AttributeError :: py_exception where
  "AttributeError = PyException ''AttributeError: NoneType object has no attribute request_params''"

text \<open>
  An executable operator: its entry point \<^verbatim>\<open>operator.execute(ctx)\<close> returns a result
  (possibly \<^verbatim>\<open>None\<close>) or raises. The operator's own logic is outside the service and
  does not write to the operation repository.
\<close>

type_synonym Operator = "ExecutionContext \<Rightarrow> py_exception + ExecutionResult option"

text \<open>
  \<^verbatim>\<open>DelegatedOperationDocument\<close>. The attribute \<^verbatim>\<open>id\<close> is \<open>doc_id\<close> and the attribute
  \<^verbatim>\<open>context\<close> is \<open>exec_context\<close> here; the context is \<^verbatim>\<open>None\<close> when
  \<^verbatim>\<open>queue_operation\<close> is called with its default.
\<close>

record DelegatedOperationDocument =
  doc_id :: ObjectId
  operator :: string
  delegation_target :: "string option"
  exec_context :: "ExecutionContext option"
  run_state :: ExecutionRunState
  result :: "ExecutionResult option"
  pinned :: bool
  dataset_id :: "ObjectId option"
  dataset_name :: "string option"

record DelegatedOpPagingParams =
  limit :: int

text \<open>
  The keyword arguments of \<^verbatim>\<open>list_operations\<close> other than the paging: an absent filter
  is \<open>None\<close>; each extra keyword filter of \<^verbatim>\<open>**kwargs\<close> is the predicate on documents
  that it denotes to the repository.
\<close>

record ListQuery =
  q_operator :: "string option"
  q_dataset_name :: "string option"
  q_dataset_id :: "ObjectId option"
  q_run_state :: "ExecutionRunState option"
  q_delegation_target :: "string option"
  q_kwargs :: "(DelegatedOperationDocument \<Rightarrow> bool) list"

subsection \<open>Collaborators: calls, events and the world\<close>

datatype repo_call =
    QueueOperation string "string option" "ExecutionContext option"
  | UpdateRunState ObjectId ExecutionRunState "ExecutionResult option"
  | GetDoc ObjectId
  | ListOperations ListQuery "DelegatedOpPagingParams option"

text \<open>
  What the service does to its collaborators, in the order it does it: a repository
  call, a call of the resolver with the operator uri and the request parameters, a call
  of an operator's entry point (on behalf of the document named), a log line about a
  document.
\<close>

datatype event =
    RepoCall repo_call
  | Prepare string request_dict
  | Execute ObjectId ExecutionContext
  | LogInfo string ObjectId

text \<open>
  The world: the stored documents in insertion order, the next id to assign, the calls
  on which the repository raises (a repository failure), and the log of events.
\<close>

record World =
  docs :: "DelegatedOperationDocument list"
  next_id :: ObjectId
  repo_fault :: "repo_call \<Rightarrow> py_exception option"
  trace :: "event list"

definition emit :: "event \<Rightarrow> World \<Rightarrow> World" where
  "emit e w = w\<lparr>trace := trace w @ [e]\<rparr>"

subsection \<open>The repository\<close>

text \<open>
  Modelled from the spec: the class \<^verbatim>\<open>DelegatedOperationRepo\<close> of
  \<^verbatim>\<open>fiftyone.factory.repos.delegated_operation\<close> is not among the sources. The spec gives
  its contract: \<^verbatim>\<open>queue_operation\<close> creates a document with a unique id, assigned at
  creation, in state QUEUED; \<^verbatim>\<open>update_run_state\<close> writes the state unconditionally and
  attaches the result only at the COMPLETED and FAILED transitions; \<^verbatim>\<open>get\<close> fails with
  NotFound if the document is absent; \<^verbatim>\<open>list_operations\<close> returns the documents that
  satisfy every filter given, at most \<^verbatim>\<open>limit\<close> of them under paging; a repository
  failure is an exception raised by the call.
\<close>

definition repo_queue_operation ::
  "string \<Rightarrow> string option \<Rightarrow> ExecutionContext option \<Rightarrow> World
    \<Rightarrow> (py_exception + DelegatedOperationDocument) \<times> World" where
  "repo_queue_operation opr tgt ctx w =
    (let c = QueueOperation opr tgt ctx; w1 = emit (RepoCall c) w in
     case repo_fault w c of
       Some e \<Rightarrow> (Inl e, w1)
     | None \<Rightarrow>
        (let d = \<lparr>doc_id = next_id w, operator = opr, delegation_target = tgt,
                  exec_context = ctx, run_state = QUEUED, result = None, pinned = False,
                  dataset_id = None, dataset_name = None\<rparr>
         in (Inr d, w1\<lparr>docs := docs w @ [d], next_id := Suc (next_id w)\<rparr>)))"

definition set_state ::
  "ExecutionRunState \<Rightarrow> ExecutionResult option \<Rightarrow> DelegatedOperationDocument
    \<Rightarrow> DelegatedOperationDocument" where
  "set_state st res d =
    (if st = COMPLETED \<or> st = FAILED then d\<lparr>run_state := st, result := res\<rparr>
     else d\<lparr>run_state := st\<rparr>)"

definition repo_update_run_state ::
  "ObjectId \<Rightarrow> ExecutionRunState \<Rightarrow> ExecutionResult option \<Rightarrow> World
    \<Rightarrow> (py_exception + DelegatedOperationDocument) \<times> World" where
  "repo_update_run_state i st res w =
    (let c = UpdateRunState i st res; w1 = emit (RepoCall c) w in
     case repo_fault w c of
       Some e \<Rightarrow> (Inl e, w1)
     | None \<Rightarrow>
        (case find (\<lambda>d. doc_id d = i) (docs w) of
           None \<Rightarrow> (Inl NotFound, w1)
         | Some d \<Rightarrow>
            (Inr (set_state st res d),
             w1\<lparr>docs := map (\<lambda>x. if doc_id x = i then set_state st res x else x) (docs w)\<rparr>)))"

definition repo_get ::
  "ObjectId \<Rightarrow> World \<Rightarrow> (py_exception + DelegatedOperationDocument) \<times> World" where
  "repo_get i w =
    (let c = GetDoc i; w1 = emit (RepoCall c) w in
     case repo_fault w c of
       Some e \<Rightarrow> (Inl e, w1)
     | None \<Rightarrow>
        (case find (\<lambda>d. doc_id d = i) (docs w) of
           None \<Rightarrow> (Inl NotFound, w1)
         | Some d \<Rightarrow> (Inr d, w1)))"

definition matches :: "ListQuery \<Rightarrow> DelegatedOperationDocument \<Rightarrow> bool" where
  "matches q d \<longleftrightarrow>
    (case q_operator q of None \<Rightarrow> True | Some x \<Rightarrow> operator d = x) \<and>
    (case q_dataset_name q of None \<Rightarrow> True | Some x \<Rightarrow> dataset_name d = Some x) \<and>
    (case q_dataset_id q of None \<Rightarrow> True | Some x \<Rightarrow> dataset_id d = Some x) \<and>
    (case q_run_state q of None \<Rightarrow> True | Some x \<Rightarrow> run_state d = x) \<and>
    (case q_delegation_target q of None \<Rightarrow> True | Some x \<Rightarrow> delegation_target d = Some x) \<and>
    list_all (\<lambda>p. p d) (q_kwargs q)"

definition select_operations ::
  "ListQuery \<Rightarrow> DelegatedOpPagingParams option \<Rightarrow> DelegatedOperationDocument list
    \<Rightarrow> DelegatedOperationDocument list" where
  "select_operations q paging ds =
    (let ms = filter (matches q) ds in
     case paging of None \<Rightarrow> ms | Some p \<Rightarrow> take (nat (limit p)) ms)"

definition repo_list_operations ::
  "ListQuery \<Rightarrow> DelegatedOpPagingParams option \<Rightarrow> World
    \<Rightarrow> (py_exception + DelegatedOperationDocument list) \<times> World" where
  "repo_list_operations q paging w =
    (let c = ListOperations q paging; w1 = emit (RepoCall c) w in
     case repo_fault w c of
       Some e \<Rightarrow> (Inl e, w1)
     | None \<Rightarrow> (Inr (select_operations q paging (docs w)), w1))"

subsection \<open>The operator resolver\<close>

text \<open>
  Modelled from the spec: \<^verbatim>\<open>prepare_operator_executor\<close> of
  \<^verbatim>\<open>fiftyone.operators.executor\<close> is not among the sources. The spec: given an operator
  identifier and request parameters it resolves the operator and binds it to an execution
  context using the request parameters, or yields an immediate failure result; it may
  also raise. Which identifiers and parameters resolve is a parameter, the \<open>resolver\<close>.
\<close>

datatype resolution = ResolveRaises py_exception | Invalid ExecutionResult | Resolved Operator

type_synonym resolver = "string \<Rightarrow> request_dict \<Rightarrow> resolution"

text \<open>
  What the call returns: an \<^verbatim>\<open>ExecutionResult\<close>, or the tuple
  \<^verbatim>\<open>(operator, executor, ctx)\<close>, of which the service ignores the second component.
\<close>

datatype prepared = PreparedResult ExecutionResult | PreparedExecutor Operator ExecutionContext

definition prepare_operator_executor ::
  "resolver \<Rightarrow> string \<Rightarrow> request_dict \<Rightarrow> py_exception + prepared" where
  "prepare_operator_executor resolve operator_uri params =
    (case resolve operator_uri params of
       ResolveRaises e \<Rightarrow> Inl e
     | Invalid r \<Rightarrow> Inr (PreparedResult r)
     | Resolved opr \<Rightarrow> Inr (PreparedExecutor opr \<lparr>request_params = params\<rparr>))"

subsection \<open>The service\<close>

definition queue_operation ::
  "string \<Rightarrow> string option \<Rightarrow> ExecutionContext option \<Rightarrow> World
    \<Rightarrow> (py_exception + DelegatedOperationDocument) \<times> World" where
  "queue_operation opr tgt ctx w = repo_queue_operation opr tgt ctx w"

definition set_running ::
  "ObjectId \<Rightarrow> World \<Rightarrow> (py_exception + DelegatedOperationDocument) \<times> World" where
  "set_running i w = repo_update_run_state i RUNNING None w"

definition set_completed ::
  "ObjectId \<Rightarrow> ExecutionResult option \<Rightarrow> World
    \<Rightarrow> (py_exception + DelegatedOperationDocument) \<times> World" where
  "set_completed i res w = repo_update_run_state i COMPLETED res w"

definition set_failed ::
  "ObjectId \<Rightarrow> ExecutionResult \<Rightarrow> World
    \<Rightarrow> (py_exception + DelegatedOperationDocument) \<times> World" where
  "set_failed i res w = repo_update_run_state i FAILED (Some res) w"

text \<open>
  \<^verbatim>\<open>rerun_operation\<close>: \<^verbatim>\<open>**doc.__dict__\<close> passes every attribute of the fetched
  document by keyword; the repository takes the operator, the delegation target and the
  context from them.
\<close>

definition rerun_operation ::
  "ObjectId \<Rightarrow> World \<Rightarrow> (py_exception + DelegatedOperationDocument) \<times> World" where
  "rerun_operation i w =
    (case repo_get i w of
       (Inl e, w1) \<Rightarrow> (Inl e, w1)
     | (Inr doc, w1) \<Rightarrow>
         repo_queue_operation (operator doc) (delegation_target doc) (exec_context doc) w1)"

definition get_doc ::
  "ObjectId \<Rightarrow> World \<Rightarrow> (py_exception + DelegatedOperationDocument) \<times> World" where
  "get_doc i w = repo_get i w"

definition list_operations ::
  "ListQuery \<Rightarrow> DelegatedOpPagingParams option \<Rightarrow> World
    \<Rightarrow> (py_exception + DelegatedOperationDocument list) \<times> World" where
  "list_operations q paging w = repo_list_operations q paging w"

text \<open>
  \<^verbatim>\<open>_execute_operator\<close>. The assignment \<^verbatim>\<open>context.request_params["run_doc"] = doc.id\<close>
  raises AttributeError when the context is \<^verbatim>\<open>None\<close>. When the resolver returns an
  \<^verbatim>\<open>ExecutionResult\<close> the method calls \<^verbatim>\<open>set_failed\<close> and then falls off its end: it
  returns \<^verbatim>\<open>None\<close>.
\<close>

definition execute_operator ::
  "resolver \<Rightarrow> DelegatedOperationDocument \<Rightarrow> World
    \<Rightarrow> (py_exception + ExecutionResult option) \<times> World" where
  "execute_operator resolve doc w =
    (case exec_context doc of
       None \<Rightarrow> (Inl AttributeError, w)
     | Some c \<Rightarrow>
        (let operator_uri = operator doc;
             params = AList.update ''run_doc'' (IdVal (doc_id doc)) (request_params c);
             w1 = emit (Prepare operator_uri params) w
         in case prepare_operator_executor resolve operator_uri params of
              Inl e \<Rightarrow> (Inl e, w1)
            | Inr (PreparedResult r) \<Rightarrow>
               (case set_failed (doc_id doc) r w1 of
                  (Inl e, w2) \<Rightarrow> (Inl e, w2)
                | (Inr _, w2) \<Rightarrow> (Inr None, w2))
            | Inr (PreparedExecutor opr ctx) \<Rightarrow>
               (case set_running (doc_id doc) w1 of
                  (Inl e, w2) \<Rightarrow> (Inl e, w2)
                | (Inr _, w2) \<Rightarrow>
                   (let w3 = emit (Execute (doc_id doc) ctx) w2 in
                    case opr ctx of
                      Inl e \<Rightarrow> (Inl e, w3)
                    | Inr r \<Rightarrow> (Inr r, w3)))))"

text \<open>The body of the \<^verbatim>\<open>try\<close> block of the loop of \<^verbatim>\<open>execute_queued_operations\<close>.\<close>

definition try_block ::
  "resolver \<Rightarrow> bool \<Rightarrow> DelegatedOperationDocument \<Rightarrow> World \<Rightarrow> (py_exception + unit) \<times> World" where
  "try_block resolve log opd w =
    (let w0 = (if log then emit (LogInfo ''Running operation'' (doc_id opd)) w else w) in
     case execute_operator resolve opd w0 of
       (Inl e, w1) \<Rightarrow> (Inl e, w1)
     | (Inr res, w1) \<Rightarrow>
        (case set_completed (doc_id opd) res w1 of
           (Inl e, w2) \<Rightarrow> (Inl e, w2)
         | (Inr _, w2) \<Rightarrow>
            (Inr (), if log then emit (LogInfo ''Operation complete'' (doc_id opd)) w2 else w2)))"

text \<open>One iteration of the loop: the \<^verbatim>\<open>try\<close> block and its \<^verbatim>\<open>except Exception\<close> handler.\<close>

definition execute_queued_op ::
  "resolver \<Rightarrow> bool \<Rightarrow> DelegatedOperationDocument \<Rightarrow> World \<Rightarrow> (py_exception + unit) \<times> World" where
  "execute_queued_op resolve log opd w =
    (case try_block resolve log opd w of
       (Inr u, w1) \<Rightarrow> (Inr u, w1)
     | (Inl e, w1) \<Rightarrow>
        (case set_failed (doc_id opd) (ExecutionResult None (Some (format_exc e))) w1 of
           (Inl e', w2) \<Rightarrow> (Inl e', w2)
         | (Inr _, w2) \<Rightarrow>
            (Inr (), if log then emit (LogInfo ''Operation failed'' (doc_id opd)) w2 else w2)))"

text \<open>The loop \<^verbatim>\<open>for op in queued_ops\<close>: an exception that leaves an iteration ends it.\<close>

fun for_queued_ops ::
  "resolver \<Rightarrow> bool \<Rightarrow> DelegatedOperationDocument list \<Rightarrow> World \<Rightarrow> (py_exception + unit) \<times> World" where
  "for_queued_ops resolve log [] w = (Inr (), w)"
| "for_queued_ops resolve log (opd # ops) w =
    (case execute_queued_op resolve log opd w of
       (Inl e, w1) \<Rightarrow> (Inl e, w1)
     | (Inr _, w1) \<Rightarrow> for_queued_ops resolve log ops w1)"

text \<open>
  The head of \<^verbatim>\<open>execute_queued_operations\<close>: the paging is built only when a limit is
  given, and the listing asks for the QUEUED documents that satisfy the caller's filters.
\<close>

definition build_paging :: "int option \<Rightarrow> DelegatedOpPagingParams option" where
  "build_paging lim = (case lim of None \<Rightarrow> None | Some n \<Rightarrow> Some \<lparr>limit = n\<rparr>)"

definition queued_query ::
  "string option \<Rightarrow> string option \<Rightarrow> string option \<Rightarrow> (DelegatedOperationDocument \<Rightarrow> bool) list
    \<Rightarrow> ListQuery" where
  "queued_query opr tgt dname kwargs =
    \<lparr>q_operator = opr, q_dataset_name = dname, q_dataset_id = None,
     q_run_state = Some QUEUED, q_delegation_target = tgt, q_kwargs = kwargs\<rparr>"

definition execute_queued_operations ::
  "resolver \<Rightarrow> string option \<Rightarrow> string option \<Rightarrow> string option \<Rightarrow> int option \<Rightarrow> bool
    \<Rightarrow> (DelegatedOperationDocument \<Rightarrow> bool) list \<Rightarrow> World \<Rightarrow> (py_exception + unit) \<times> World" where
  "execute_queued_operations resolve opr tgt dname lim log kwargs w =
    (let paging = build_paging lim in
     case list_operations (queued_query opr tgt dname kwargs) paging w of
       (Inl e, w1) \<Rightarrow> (Inl e, w1)
     | (Inr queued_ops, w1) \<Rightarrow> for_queued_ops resolve log queued_ops w1)"

subsection \<open>Observations on the event log and the store\<close>

text \<open>
  The document an event is about: the id of a run-state update, of an operator execution
  and of a log line, and for a resolver call the id that the request parameters carry
  under the key \<^verbatim>\<open>run_doc\<close>.
\<close>

fun event_doc :: "event \<Rightarrow> ObjectId option" where
  "event_doc (RepoCall (UpdateRunState i st res)) = Some i"
| "event_doc (RepoCall (QueueOperation opr tgt ctx)) = None"
| "event_doc (RepoCall (GetDoc i)) = None"
| "event_doc (RepoCall (ListOperations q paging)) = None"
| "event_doc (Prepare uri ps) = (case map_of ps ''run_doc'' of Some (IdVal i) \<Rightarrow> Some i | _ \<Rightarrow> None)"
| "event_doc (Execute i ctx) = Some i"
| "event_doc (LogInfo msg i) = Some i"

text \<open>The documents a stretch of the log is about, each once, in order of first mention.\<close>

definition processed_ids :: "event list \<Rightarrow> ObjectId list" where
  "processed_ids evs = remdups (List.map_filter event_doc evs)"

fun is_log :: "event \<Rightarrow> bool" where
  "is_log (LogInfo msg i) = True"
| "is_log (RepoCall c) = False"
| "is_log (Prepare uri ps) = False"
| "is_log (Execute i ctx) = False"

fun is_prepare :: "event \<Rightarrow> bool" where
  "is_prepare (Prepare uri ps) = True"
| "is_prepare (RepoCall c) = False"
| "is_prepare (LogInfo msg i) = False"
| "is_prepare (Execute i ctx) = False"

text \<open>The run-state updates asked of the repository, in order.\<close>

fun run_state_updates :: "event list \<Rightarrow> (ObjectId \<times> ExecutionRunState \<times> ExecutionResult option) list" where
  "run_state_updates [] = []"
| "run_state_updates (RepoCall (UpdateRunState i st res) # evs) = (i, st, res) # run_state_updates evs"
| "run_state_updates (e # evs) = run_state_updates evs"

text \<open>The world without its log lines.\<close>

definition unlog :: "World \<Rightarrow> World" where
  "unlog w = w\<lparr>trace := filter (\<lambda>e. \<not> is_log e) (trace w)\<rparr>"

text \<open>The stored document with a given id.\<close>

definition stored :: "ObjectId \<Rightarrow> World \<Rightarrow> DelegatedOperationDocument option" where
  "stored i w = find (\<lambda>d. doc_id d = i) (docs w)"

text \<open>
  What handling one document may change: only stored documents with that id, never an
  id, the failure behaviour of the repository or the id counter; and every event it adds
  to the log is about that document.
\<close>

definition frame :: "ObjectId \<Rightarrow> World \<Rightarrow> World \<Rightarrow> bool" where
  "frame i w w' \<longleftrightarrow>
    (\<exists>f. docs w' = map f (docs w) \<and> (\<forall>x. doc_id (f x) = doc_id x) \<and> (\<forall>x. doc_id x \<noteq> i \<longrightarrow> f x = x)) \<and>
    repo_fault w' = repo_fault w \<and> next_id w' = next_id w \<and>
    (\<exists>seg. trace w' = trace w @ seg \<and> (\<forall>e \<in> set seg. event_doc e = Some i))"

text \<open>
  A document is settled in a world when it is stored there and every stored document with
  its id is in a terminal run state, COMPLETED or FAILED.
\<close>

definition settled :: "ObjectId \<Rightarrow> World \<Rightarrow> bool" where
  "settled i w \<longleftrightarrow>
    i \<in> doc_id ` set (docs w) \<and>
    (\<forall>y \<in> set (docs w). doc_id y = i \<longrightarrow> run_state y = COMPLETED \<or> run_state y = FAILED)"

text \<open>A stretch of the log handles a document: it is not empty and all of it is about it.\<close>

definition handles :: "DelegatedOperationDocument \<Rightarrow> event list \<Rightarrow> bool" where
  "handles d seg \<longleftrightarrow> seg \<noteq> [] \<and> (\<forall>e \<in> set seg. event_doc e = Some (doc_id d))"

subsection \<open>A concrete scenario\<close>

text \<open>
  Operators and a store in the manner of the spec's scenarios: \<^verbatim>\<open>echo\<close> returns its
  input, \<^verbatim>\<open>boom\<close> raises, \<^verbatim>\<open>invalid-params\<close> resolves to an immediate failure result,
  and any other uri makes the resolver raise.
\<close>

definition echo_operator :: Operator where
  "echo_operator ctx = Inr (Some (ExecutionResult (Some (request_params ctx)) None))"

definition raising_operator :: Operator where
  "raising_operator ctx = Inl (PyException ''RuntimeError: boom'')"

definition scenario_resolver :: resolver where
  "scenario_resolver uri ps =
    (if uri = ''echo'' then Resolved echo_operator
     else if uri = ''boom'' then Resolved raising_operator
     else if uri = ''invalid-params'' then Invalid (ExecutionResult None (Some ''Validation error''))
     else ResolveRaises (PyException ''ValueError: operator does not exist''))"

definition queued_doc ::
  "ObjectId \<Rightarrow> string \<Rightarrow> ExecutionContext option \<Rightarrow> DelegatedOperationDocument" where
  "queued_doc i uri ctx =
    \<lparr>doc_id = i, operator = uri, delegation_target = None, exec_context = ctx,
     run_state = QUEUED, result = None, pinned = False, dataset_id = None, dataset_name = None\<rparr>"

definition scenario_world :: World where
  "scenario_world =
    \<lparr>docs = [queued_doc 0 ''echo'' (Some \<lparr>request_params = [(''msg'', StrVal ''hi'')]\<rparr>),
             queued_doc 1 ''boom'' (Some \<lparr>request_params = []\<rparr>),
             queued_doc 2 ''invalid-params'' (Some \<lparr>request_params = []\<rparr>),
             queued_doc 3 ''echo'' None],
     next_id = 4, repo_fault = (\<lambda>c. None), trace = []\<rparr>"

text \<open>The same store behind a repository that fails every write of the COMPLETED state.\<close>

definition write_failure :: "repo_call \<Rightarrow> py_exception option" where
  "write_failure c =
    (case c of
       UpdateRunState i st res \<Rightarrow>
         (if st = COMPLETED then Some (PyException ''OperationFailure: write failed'') else None)
     | _ \<Rightarrow> None)"

definition failing_world :: World where
  "failing_world = scenario_world\<lparr>repo_fault := write_failure\<rparr>"

section \<open>Properties\<close>

lemma emit_fields [simp]:
  "docs (emit e w) = docs w" "next_id (emit e w) = next_id w"
  "repo_fault (emit e w) = repo_fault w" "trace (emit e w) = trace w @ [e]"
  by (simp_all add: emit_def)

lemma set_state_id [simp]: "doc_id (set_state st res d) = doc_id d"
  by (simp add: set_state_def)

lemma set_state_run_state [simp]: "run_state (set_state st res d) = st"
  by (simp add: set_state_def)

lemma find_None_ids: "find (\<lambda>d. doc_id d = i) ds = None \<longleftrightarrow> i \<notin> doc_id ` set ds"
  by (auto simp: find_None_iff)

text \<open>The three ways a run-state update ends.\<close>

lemma update_fault:
  "repo_fault w (UpdateRunState i st res) = Some e \<Longrightarrow>
   repo_update_run_state i st res w = (Inl e, emit (RepoCall (UpdateRunState i st res)) w)"
  by (simp add: repo_update_run_state_def)

lemma update_missing:
  "repo_fault w (UpdateRunState i st res) = None \<Longrightarrow> stored i w = None \<Longrightarrow>
   repo_update_run_state i st res w = (Inl NotFound, emit (RepoCall (UpdateRunState i st res)) w)"
  by (simp add: repo_update_run_state_def stored_def)

lemma update_ok:
  "repo_fault w (UpdateRunState i st res) = None \<Longrightarrow> stored i w = Some d \<Longrightarrow>
   repo_update_run_state i st res w =
     (Inr (set_state st res d),
      (emit (RepoCall (UpdateRunState i st res)) w)
        \<lparr>docs := map (\<lambda>x. if doc_id x = i then set_state st res x else x) (docs w)\<rparr>)"
  by (simp add: repo_update_run_state_def stored_def)

lemma update_cases:
  obtains (fault) e where "repo_fault w (UpdateRunState i st res) = Some e"
  | (missing) "repo_fault w (UpdateRunState i st res) = None" "stored i w = None"
  | (ok) d where "repo_fault w (UpdateRunState i st res) = None" "stored i w = Some d"
  by (cases "repo_fault w (UpdateRunState i st res)"; cases "stored i w") auto

lemma frame_refl: "frame i w w"
  unfolding frame_def
  by (intro conjI exI[of _ "\<lambda>x. x"] exI[of _ "[]"]) simp_all

lemma frame_trans:
  assumes "frame i a b" and "frame i b c"
  shows "frame i a c"
proof -
  from assms(1) obtain f s1 where
    f: "docs b = map f (docs a)" "\<forall>x. doc_id (f x) = doc_id x" "\<forall>x. doc_id x \<noteq> i \<longrightarrow> f x = x"
    and ab: "repo_fault b = repo_fault a" "next_id b = next_id a"
    and s1: "trace b = trace a @ s1" "\<forall>e \<in> set s1. event_doc e = Some i"
    unfolding frame_def by blast
  from assms(2) obtain g s2 where
    g: "docs c = map g (docs b)" "\<forall>x. doc_id (g x) = doc_id x" "\<forall>x. doc_id x \<noteq> i \<longrightarrow> g x = x"
    and bc: "repo_fault c = repo_fault b" "next_id c = next_id b"
    and s2: "trace c = trace b @ s2" "\<forall>e \<in> set s2. event_doc e = Some i"
    unfolding frame_def by blast
  have "docs c = map (g \<circ> f) (docs a)" using f(1) g(1) by simp
  moreover have "\<forall>x. doc_id ((g \<circ> f) x) = doc_id x" using f(2) g(2) by simp
  moreover have "\<forall>x. doc_id x \<noteq> i \<longrightarrow> (g \<circ> f) x = x" using f(3) g(3) by simp
  moreover have "trace c = trace a @ (s1 @ s2)" using s1(1) s2(1) by simp
  moreover have "\<forall>e \<in> set (s1 @ s2). event_doc e = Some i" using s1(2) s2(2) by auto
  ultimately show ?thesis
    unfolding frame_def using ab bc by (metis (no_types, lifting))
qed

lemma frame_emit: "event_doc e = Some i \<Longrightarrow> frame i w (emit e w)"
  unfolding frame_def
  by (intro conjI exI[of _ "\<lambda>x. x"] exI[of _ "[e]"]) simp_all

lemma frame_update:
  assumes "repo_update_run_state i st res w = (r, w')"
  shows "frame i w w'"
proof (cases rule: update_cases[of w i st res])
  case (fault e)
  then show ?thesis using assms frame_emit[of "RepoCall (UpdateRunState i st res)" i w]
    by (simp add: update_fault)
next
  case missing
  then show ?thesis using assms frame_emit[of "RepoCall (UpdateRunState i st res)" i w]
    by (simp add: update_missing)
next
  case (ok d)
  then have w': "w' = (emit (RepoCall (UpdateRunState i st res)) w)
        \<lparr>docs := map (\<lambda>x. if doc_id x = i then set_state st res x else x) (docs w)\<rparr>"
    using assms by (simp add: update_ok)
  show ?thesis
    unfolding frame_def w'
    by (intro conjI exI[of _ "\<lambda>x. if doc_id x = i then set_state st res x else x"]
          exI[of _ "[RepoCall (UpdateRunState i st res)]"]) simp_all
qed

lemma map_of_update_same [simp]: "map_of (AList.update k v ps) k = Some v"
  by (simp add: update_conv')

lemma map_of_update_other [simp]: "k' \<noteq> k \<Longrightarrow> map_of (AList.update k v ps) k' = map_of ps k'"
  by (simp add: update_conv')

lemma event_doc_prepare [simp]:
  "event_doc (Prepare uri (AList.update ''run_doc'' (IdVal i) ps)) = Some i"
  by (simp add: update_conv')

lemma prepare_cases:
  obtains (raises) e where "resolve uri ps = ResolveRaises e"
      "prepare_operator_executor resolve uri ps = Inl e"
  | (invalid) r where "resolve uri ps = Invalid r"
      "prepare_operator_executor resolve uri ps = Inr (PreparedResult r)"
  | (resolved) opr where "resolve uri ps = Resolved opr"
      "prepare_operator_executor resolve uri ps = Inr (PreparedExecutor opr \<lparr>request_params = ps\<rparr>)"
  by (cases "resolve uri ps") (auto simp: prepare_operator_executor_def)

lemma execute_operator_frame:
  assumes "execute_operator resolve d w = (r, w')"
  shows "frame (doc_id d) w w'"
proof (cases "exec_context d")
  case None
  then show ?thesis using assms by (simp add: execute_operator_def frame_refl)
next
  case (Some c)
  define ps where "ps = AList.update ''run_doc'' (IdVal (doc_id d)) (request_params c)"
  define w1 where "w1 = emit (Prepare (operator d) ps) w"
  have f1: "frame (doc_id d) w w1"
    unfolding w1_def ps_def by (rule frame_emit) simp
  show ?thesis
  proof (cases rule: prepare_cases[of resolve "operator d" ps])
    case (raises e)
    then show ?thesis using assms Some f1
      by (simp add: execute_operator_def ps_def[symmetric] w1_def[symmetric])
  next
    case (invalid x)
    obtain r2 w2 where u: "repo_update_run_state (doc_id d) FAILED (Some x) w1 = (r2, w2)"
      by (cases "repo_update_run_state (doc_id d) FAILED (Some x) w1") auto
    then have "w' = w2" using assms Some invalid
      by (simp add: execute_operator_def ps_def[symmetric] w1_def[symmetric] set_failed_def
          split: sum.splits)
    then show ?thesis using frame_trans[OF f1 frame_update[OF u]] by simp
  next
    case (resolved opr)
    obtain r2 w2 where u: "repo_update_run_state (doc_id d) RUNNING None w1 = (r2, w2)"
      by (cases "repo_update_run_state (doc_id d) RUNNING None w1") auto
    have f2: "frame (doc_id d) w w2" by (rule frame_trans[OF f1 frame_update[OF u]])
    have f3: "frame (doc_id d) w (emit (Execute (doc_id d) \<lparr>request_params = ps\<rparr>) w2)"
      by (rule frame_trans[OF f2]) (rule frame_emit, simp)
    have "w' = w2 \<or> w' = emit (Execute (doc_id d) \<lparr>request_params = ps\<rparr>) w2"
      using assms Some resolved u
      by (auto simp: execute_operator_def ps_def[symmetric] w1_def[symmetric] set_running_def
          Let_def split: sum.splits)
    then show ?thesis using f2 f3 by auto
  qed
qed

lemma stored_None_iff: "stored i w = None \<longleftrightarrow> i \<notin> doc_id ` set (docs w)"
  by (simp add: stored_def find_None_ids)

lemma update_trace:
  "repo_update_run_state i st res w = (r, w') \<Longrightarrow>
   trace w' = trace w @ [RepoCall (UpdateRunState i st res)]"
  by (cases rule: update_cases[of w i st res])
     (auto simp: update_fault update_missing update_ok)

lemma frame_ids: "frame i w w' \<Longrightarrow> map doc_id (docs w') = map doc_id (docs w)"
  unfolding frame_def by auto

lemma frame_fault: "frame i w w' \<Longrightarrow> repo_fault w' = repo_fault w"
  unfolding frame_def by simp

lemma frame_length: "frame i w w' \<Longrightarrow> length (trace w) \<le> length (trace w')"
  unfolding frame_def by auto

lemma frame_id_set: "frame i w w' \<Longrightarrow> doc_id ` set (docs w') = doc_id ` set (docs w)"
  using frame_ids[of i w w'] by (metis set_map)

lemma update_settles:
  assumes "repo_update_run_state i st res w = (Inr x, w')" and "st = COMPLETED \<or> st = FAILED"
  shows "settled i w'"
proof (cases rule: update_cases[of w i st res])
  case (fault e)
  then show ?thesis using assms by (simp add: update_fault)
next
  case missing
  then show ?thesis using assms by (simp add: update_missing)
next
  case (ok d)
  then have i: "i \<in> doc_id ` set (docs w)" using stored_None_iff[of i w] by auto
  have dw: "docs w' = map (\<lambda>x. if doc_id x = i then set_state st res x else x) (docs w)"
    using ok assms by (auto simp: update_ok)
  have "map doc_id (docs w') = map doc_id (docs w)" unfolding dw by simp
  then have "doc_id ` set (docs w') = doc_id ` set (docs w)" by (metis set_map)
  then have "i \<in> doc_id ` set (docs w')" using i by simp
  moreover have "run_state y = COMPLETED \<or> run_state y = FAILED"
    if "y \<in> set (docs w')" "doc_id y = i" for y
  proof -
    from that(1) dw obtain x where "x \<in> set (docs w)"
      "y = (if doc_id x = i then set_state st res x else x)" by auto
    then show ?thesis using that(2) assms(2) by (auto split: if_splits)
  qed
  ultimately show ?thesis by (simp add: settled_def)
qed

lemma settled_emit [simp]: "settled i (emit e w) = settled i w"
  by (simp add: settled_def)

lemma settled_frame_other:
  assumes "frame j w w'" and "j \<noteq> i" and "settled i w"
  shows "settled i w'"
proof -
  from assms(1) obtain f where
    f: "docs w' = map f (docs w)" "\<forall>x. doc_id (f x) = doc_id x" "\<forall>x. doc_id x \<noteq> j \<longrightarrow> f x = x"
    unfolding frame_def by blast
  have "i \<in> doc_id ` set (docs w')"
    using assms(3) frame_id_set[OF assms(1)] by (simp add: settled_def)
  moreover have "run_state y = COMPLETED \<or> run_state y = FAILED"
    if "y \<in> set (docs w')" "doc_id y = i" for y
  proof -
    from that(1) f(1) obtain x where x: "x \<in> set (docs w)" "y = f x" by auto
    then have "doc_id x = i" using that(2) f(2) by simp
    then have "y = x" using x(2) f(3) assms(2) by simp
    then show ?thesis using x(1) \<open>doc_id x = i\<close> assms(3) by (simp add: settled_def)
  qed
  ultimately show ?thesis by (simp add: settled_def)
qed

lemma try_block_frame:
  assumes "try_block resolve log d w = (r, w')"
  shows "frame (doc_id d) w w'"
proof -
  define w0 where "w0 = (if log then emit (LogInfo ''Running operation'' (doc_id d)) w else w)"
  have f0: "frame (doc_id d) w w0"
    unfolding w0_def by (simp add: frame_refl frame_emit)
  obtain r1 w1 where e: "execute_operator resolve d w0 = (r1, w1)"
    by (cases "execute_operator resolve d w0") auto
  have f1: "frame (doc_id d) w w1"
    by (rule frame_trans[OF f0 execute_operator_frame[OF e]])
  show ?thesis
  proof (cases r1)
    case (Inl ex)
    then show ?thesis using assms e f1 by (simp add: try_block_def w0_def[symmetric])
  next
    case (Inr res)
    obtain r2 w2 where u: "repo_update_run_state (doc_id d) COMPLETED res w1 = (r2, w2)"
      by (cases "repo_update_run_state (doc_id d) COMPLETED res w1") auto
    have f2: "frame (doc_id d) w w2" by (rule frame_trans[OF f1 frame_update[OF u]])
    have f3: "frame (doc_id d) w (emit (LogInfo ''Operation complete'' (doc_id d)) w2)"
      by (rule frame_trans[OF f2]) (rule frame_emit, simp)
    have "w' = w2 \<or> w' = emit (LogInfo ''Operation complete'' (doc_id d)) w2"
      using assms e Inr u
      by (auto simp: try_block_def w0_def[symmetric] set_completed_def split: sum.splits if_splits)
    then show ?thesis using f2 f3 by auto
  qed
qed

lemma try_block_settles:
  assumes "try_block resolve log d w = (Inr u, w')"
  shows "settled (doc_id d) w' \<and> length (trace w) < length (trace w')"
proof -
  define w0 where "w0 = (if log then emit (LogInfo ''Running operation'' (doc_id d)) w else w)"
  have l0: "length (trace w) \<le> length (trace w0)" unfolding w0_def by simp
  obtain r1 w1 where e: "execute_operator resolve d w0 = (r1, w1)"
    by (cases "execute_operator resolve d w0") auto
  have l1: "length (trace w0) \<le> length (trace w1)"
    using frame_length[OF execute_operator_frame[OF e]] .
  from assms e obtain res where r1: "r1 = Inr res"
    by (cases r1) (auto simp: try_block_def w0_def[symmetric])
  obtain r2 w2 where u: "repo_update_run_state (doc_id d) COMPLETED res w1 = (r2, w2)"
    by (cases "repo_update_run_state (doc_id d) COMPLETED res w1") auto
  from assms e r1 u obtain x where r2: "r2 = Inr x"
    by (cases r2) (auto simp: try_block_def w0_def[symmetric] set_completed_def)
  have s2: "settled (doc_id d) w2" using update_settles[of "doc_id d" COMPLETED res w1 x w2] u r2 by simp
  have l2: "length (trace w2) = Suc (length (trace w1))" using update_trace[OF u] by simp
  have "w' = w2 \<or> w' = emit (LogInfo ''Operation complete'' (doc_id d)) w2"
    using assms e r1 u r2
    by (auto simp: try_block_def w0_def[symmetric] set_completed_def split: if_splits)
  then show ?thesis using s2 l0 l1 l2 by auto
qed

lemma execute_queued_op_frame:
  assumes "execute_queued_op resolve log d w = (r, w')"
  shows "frame (doc_id d) w w'"
proof -
  obtain r1 w1 where t: "try_block resolve log d w = (r1, w1)"
    by (cases "try_block resolve log d w") auto
  have f1: "frame (doc_id d) w w1" by (rule try_block_frame[OF t])
  show ?thesis
  proof (cases r1)
    case (Inr u)
    then show ?thesis using assms t f1 by (simp add: execute_queued_op_def)
  next
    case (Inl e)
    define fr where "fr = ExecutionResult None (Some (format_exc e))"
    obtain r2 w2 where u: "repo_update_run_state (doc_id d) FAILED (Some fr) w1 = (r2, w2)"
      by (cases "repo_update_run_state (doc_id d) FAILED (Some fr) w1") auto
    have f2: "frame (doc_id d) w w2" by (rule frame_trans[OF f1 frame_update[OF u]])
    have f3: "frame (doc_id d) w (emit (LogInfo ''Operation failed'' (doc_id d)) w2)"
      by (rule frame_trans[OF f2]) (rule frame_emit, simp)
    have "w' = w2 \<or> w' = emit (LogInfo ''Operation failed'' (doc_id d)) w2"
      using assms t Inl u
      by (auto simp: execute_queued_op_def fr_def[symmetric] set_failed_def split: sum.splits if_splits)
    then show ?thesis using f2 f3 by auto
  qed
qed

lemma execute_queued_op_progress:
  assumes "execute_queued_op resolve log d w = (r, w')"
  shows "length (trace w) < length (trace w')"
proof -
  obtain r1 w1 where t: "try_block resolve log d w = (r1, w1)"
    by (cases "try_block resolve log d w") auto
  show ?thesis
  proof (cases r1)
    case (Inr u)
    then show ?thesis using assms t try_block_settles[of resolve log d w u w1]
      by (simp add: execute_queued_op_def)
  next
    case (Inl e)
    define fr where "fr = ExecutionResult None (Some (format_exc e))"
    obtain r2 w2 where u: "repo_update_run_state (doc_id d) FAILED (Some fr) w1 = (r2, w2)"
      by (cases "repo_update_run_state (doc_id d) FAILED (Some fr) w1") auto
    have l1: "length (trace w) \<le> length (trace w1)" using frame_length[OF try_block_frame[OF t]] .
    have l2: "length (trace w2) = Suc (length (trace w1))" using update_trace[OF u] by simp
    have "w' = w2 \<or> w' = emit (LogInfo ''Operation failed'' (doc_id d)) w2"
      using assms t Inl u
      by (auto simp: execute_queued_op_def fr_def[symmetric] set_failed_def split: sum.splits if_splits)
    then show ?thesis using l1 l2 by auto
  qed
qed

lemma execute_queued_op_settles:
  assumes "execute_queued_op resolve log d w = (Inr u, w')"
  shows "settled (doc_id d) w'"
proof -
  obtain r1 w1 where t: "try_block resolve log d w = (r1, w1)"
    by (cases "try_block resolve log d w") auto
  show ?thesis
  proof (cases r1)
    case (Inr u1)
    then show ?thesis using assms t try_block_settles[of resolve log d w u1 w1]
      by (simp add: execute_queued_op_def)
  next
    case (Inl e)
    define fr where "fr = ExecutionResult None (Some (format_exc e))"
    obtain r2 w2 where u: "repo_update_run_state (doc_id d) FAILED (Some fr) w1 = (r2, w2)"
      by (cases "repo_update_run_state (doc_id d) FAILED (Some fr) w1") auto
    from assms t Inl u obtain x where r2: "r2 = Inr x"
      by (cases r2) (auto simp: execute_queued_op_def fr_def[symmetric] set_failed_def)
    have s2: "settled (doc_id d) w2"
      using update_settles[of "doc_id d" FAILED "Some fr" w1 x w2] u r2 by simp
    have "w' = w2 \<or> w' = emit (LogInfo ''Operation failed'' (doc_id d)) w2"
      using assms t Inl u r2
      by (auto simp: execute_queued_op_def fr_def[symmetric] set_failed_def split: if_splits)
    then show ?thesis using s2 by auto
  qed
qed

lemma execute_queued_op_returns:
  assumes nf: "\<And>res. repo_fault w (UpdateRunState (doc_id d) FAILED res) = None"
    and st: "doc_id d \<in> doc_id ` set (docs w)"
  shows "\<exists>w'. execute_queued_op resolve log d w = (Inr (), w')"
proof -
  obtain r1 w1 where t: "try_block resolve log d w = (r1, w1)"
    by (cases "try_block resolve log d w") auto
  show ?thesis
  proof (cases r1)
    case (Inr u1)
    then show ?thesis using t by (simp add: execute_queued_op_def)
  next
    case (Inl e)
    define fr where "fr = ExecutionResult None (Some (format_exc e))"
    have f1: "frame (doc_id d) w w1" by (rule try_block_frame[OF t])
    have "repo_fault w1 (UpdateRunState (doc_id d) FAILED (Some fr)) = None"
      using nf frame_fault[OF f1] by simp
    moreover obtain d1 where "stored (doc_id d) w1 = Some d1"
      using st frame_id_set[OF f1] stored_None_iff[of "doc_id d" w1] by (cases "stored (doc_id d) w1") auto
    ultimately show ?thesis using t Inl
      by (simp add: execute_queued_op_def fr_def[symmetric] set_failed_def update_ok)
  qed
qed

lemma execute_queued_op_handles:
  assumes "execute_queued_op resolve log d w = (r, w')"
  shows "\<exists>seg. trace w' = trace w @ seg \<and> handles d seg"
proof -
  from execute_queued_op_frame[OF assms] obtain seg where
    seg: "trace w' = trace w @ seg" "\<forall>e \<in> set seg. event_doc e = Some (doc_id d)"
    unfolding frame_def by blast
  moreover have "seg \<noteq> []" using execute_queued_op_progress[OF assms] seg(1) by auto
  ultimately show ?thesis unfolding handles_def by blast
qed

lemma for_queued_ops_fault:
  "for_queued_ops resolve log ops w = (r, w') \<Longrightarrow>
   repo_fault w' = repo_fault w \<and> doc_id ` set (docs w') = doc_id ` set (docs w)"
proof (induction ops arbitrary: w)
  case Nil
  then show ?case by simp
next
  case (Cons d ops)
  obtain r1 w1 where s: "execute_queued_op resolve log d w = (r1, w1)"
    by (cases "execute_queued_op resolve log d w") auto
  have f: "frame (doc_id d) w w1" by (rule execute_queued_op_frame[OF s])
  show ?case
  proof (cases r1)
    case (Inl e)
    then show ?thesis using Cons.prems s frame_fault[OF f] frame_id_set[OF f] by simp
  next
    case (Inr u)
    then have "for_queued_ops resolve log ops w1 = (r, w')" using Cons.prems s by simp
    from Cons.IH[OF this] show ?thesis using frame_fault[OF f] frame_id_set[OF f] by simp
  qed
qed

lemma for_queued_ops_keeps:
  "for_queued_ops resolve log ops w = (r, w') \<Longrightarrow> settled i w \<Longrightarrow>
   i \<notin> doc_id ` set ops \<Longrightarrow> settled i w'"
proof (induction ops arbitrary: w)
  case Nil
  then show ?case by simp
next
  case (Cons d ops)
  obtain r1 w1 where s: "execute_queued_op resolve log d w = (r1, w1)"
    by (cases "execute_queued_op resolve log d w") auto
  have "doc_id d \<noteq> i" using Cons.prems(3) by auto
  then have k: "settled i w1"
    using settled_frame_other[OF execute_queued_op_frame[OF s] _ Cons.prems(2)] by simp
  show ?case
  proof (cases r1)
    case (Inl e)
    then show ?thesis using Cons.prems(1) s k by simp
  next
    case (Inr u)
    then have "for_queued_ops resolve log ops w1 = (r, w')" using Cons.prems(1) s by simp
    from Cons.IH[OF this k] show ?thesis using Cons.prems(3) by simp
  qed
qed

lemma for_queued_ops_settles:
  "for_queued_ops resolve log ops w = (Inr u, w') \<Longrightarrow> \<forall>d \<in> set ops. settled (doc_id d) w'"
proof (induction ops arbitrary: w)
  case Nil
  then show ?case by simp
next
  case (Cons d ops)
  obtain r1 w1 where s: "execute_queued_op resolve log d w = (r1, w1)"
    by (cases "execute_queued_op resolve log d w") auto
  from Cons.prems s obtain u1 where r1: "r1 = Inr u1" by (cases r1) auto
  have rest: "for_queued_ops resolve log ops w1 = (Inr u, w')" using Cons.prems s r1 by simp
  have tail: "\<forall>x \<in> set ops. settled (doc_id x) w'" by (rule Cons.IH[OF rest])
  have s1: "settled (doc_id d) w1" using execute_queued_op_settles[of resolve log d w u1 w1] s r1 by simp
  have "settled (doc_id d) w'"
  proof (cases "doc_id d \<in> doc_id ` set ops")
    case True
    then show ?thesis using tail by auto
  next
    case False
    then show ?thesis using for_queued_ops_keeps[OF rest s1] by simp
  qed
  then show ?case using tail by simp
qed

lemma for_queued_ops_trace:
  "for_queued_ops resolve log ops w = (r, w') \<Longrightarrow>
   \<exists>segs. trace w' = trace w @ concat segs \<and> length segs \<le> length ops \<and>
          list_all2 handles (take (length segs) ops) segs \<and>
          (r = Inr () \<longrightarrow> length segs = length ops)"
proof (induction ops arbitrary: w)
  case Nil
  then show ?case by (intro exI[of _ "[]"]) simp
next
  case (Cons d ops)
  obtain r1 w1 where s: "execute_queued_op resolve log d w = (r1, w1)"
    by (cases "execute_queued_op resolve log d w") auto
  from execute_queued_op_handles[OF s] obtain seg where
    seg: "trace w1 = trace w @ seg" "handles d seg" by blast
  show ?case
  proof (cases r1)
    case (Inl e)
    then have "r = Inl e" "w' = w1" using Cons.prems s by auto
    then show ?thesis using seg by (intro exI[of _ "[seg]"]) simp
  next
    case (Inr u)
    then have "for_queued_ops resolve log ops w1 = (r, w')" using Cons.prems s by simp
    from Cons.IH[OF this] obtain segs where
      segs: "trace w' = trace w1 @ concat segs" "length segs \<le> length ops"
        "list_all2 handles (take (length segs) ops) segs"
        "r = Inr () \<longrightarrow> length segs = length ops" by blast
    show ?thesis using seg segs by (intro exI[of _ "seg # segs"]) simp
  qed
qed

lemma for_queued_ops_returns:
  "(\<And>i res. repo_fault w (UpdateRunState i FAILED res) = None) \<Longrightarrow>
   doc_id ` set ops \<subseteq> doc_id ` set (docs w) \<Longrightarrow>
   \<exists>w'. for_queued_ops resolve log ops w = (Inr (), w')"
proof (induction ops arbitrary: w)
  case Nil
  then show ?case by simp
next
  case (Cons d ops)
  have "doc_id d \<in> doc_id ` set (docs w)" using Cons.prems(2) by auto
  from execute_queued_op_returns[OF Cons.prems(1) this] obtain w1 where
    s: "execute_queued_op resolve log d w = (Inr (), w1)" by blast
  have f: "frame (doc_id d) w w1" by (rule execute_queued_op_frame[OF s])
  have "\<And>i res. repo_fault w1 (UpdateRunState i FAILED res) = None"
    using Cons.prems(1) frame_fault[OF f] by simp
  moreover have "doc_id ` set ops \<subseteq> doc_id ` set (docs w1)"
    using Cons.prems(2) frame_id_set[OF f] by auto
  ultimately obtain w' where "for_queued_ops resolve log ops w1 = (Inr (), w')"
    using Cons.IH[of w1] by blast
  then show ?case using s by simp
qed

lemma map_filter_app:
  "List.map_filter f (xs @ ys) = List.map_filter f xs @ List.map_filter f ys"
  by (simp add: map_filter_def)

lemma handled_ids:
  "list_all2 handles ds segs \<Longrightarrow> set (List.map_filter event_doc (concat segs)) = doc_id ` set ds"
proof (induction ds segs rule: list_all2_induct)
  case Nil
  then show ?case by (simp add: map_filter_simps)
next
  case (Cons d ds seg segs)
  obtain e where e: "e \<in> set seg" using Cons.hyps(1) unfolding handles_def by (cases seg) auto
  have all: "\<forall>x \<in> set seg. event_doc x = Some (doc_id d)" using Cons.hyps(1) unfolding handles_def by simp
  have "set (List.map_filter event_doc seg) = {doc_id d}"
  proof
    show "set (List.map_filter event_doc seg) \<subseteq> {doc_id d}"
      using all by (auto simp: map_filter_def)
    show "{doc_id d} \<subseteq> set (List.map_filter event_doc seg)"
      using e all by (force simp: map_filter_def)
  qed
  then show ?case using Cons.IH by (simp add: map_filter_app)
qed

lemma select_operations_subset: "set (select_operations q paging ds) \<subseteq> set ds"
  by (auto simp: select_operations_def Let_def split: option.splits dest: in_set_takeD)

lemma select_operations_limit:
  "length (select_operations q (Some \<lparr>limit = n\<rparr>) ds) \<le> nat n"
  by (simp add: select_operations_def)

lemma select_operations_all:
  "select_operations q None ds = filter (matches q) ds"
  by (simp add: select_operations_def)

lemma processed_ids_bound:
  assumes "list_all2 handles ds segs"
  shows "length (processed_ids (concat segs)) \<le> length ds"
proof -
  have "length (processed_ids (concat segs)) = card (doc_id ` set ds)"
    unfolding processed_ids_def using handled_ids[OF assms] by (simp add: length_remdups_card_conv)
  also have "\<dots> \<le> card (set ds)" by (rule card_image_le) simp
  also have "\<dots> \<le> length ds" by (rule card_length)
  finally show ?thesis .
qed

lemma unlog_fields [simp]:
  "docs (unlog w) = docs w" "next_id (unlog w) = next_id w" "repo_fault (unlog w) = repo_fault w"
  "trace (unlog w) = filter (\<lambda>e. \<not> is_log e) (trace w)"
  by (simp_all add: unlog_def)

lemma unlog_emit: "unlog (emit e w) = (if is_log e then unlog w else emit e (unlog w))"
  by (simp add: unlog_def emit_def)

lemma unlog_docs_update: "unlog (w\<lparr>docs := ds\<rparr>) = (unlog w)\<lparr>docs := ds\<rparr>"
  by (simp add: unlog_def)

lemma stored_unlog [simp]: "stored i (unlog w) = stored i w"
  by (simp add: stored_def)

lemma update_unlog:
  "repo_update_run_state i st res (unlog w) = map_prod id unlog (repo_update_run_state i st res w)"
  by (cases rule: update_cases[of w i st res])
     (simp_all add: update_fault update_missing update_ok unlog_emit unlog_docs_update)

lemma execute_operator_unlog:
  "execute_operator resolve d (unlog w) = map_prod id unlog (execute_operator resolve d w)"
proof (cases "exec_context d")
  case None
  then show ?thesis by (simp add: execute_operator_def)
next
  case (Some c)
  define ps where "ps = AList.update ''run_doc'' (IdVal (doc_id d)) (request_params c)"
  define w1 where "w1 = emit (Prepare (operator d) ps) w"
  have w1: "emit (Prepare (operator d) ps) (unlog w) = unlog w1"
    by (simp add: w1_def unlog_emit)
  show ?thesis
  proof (cases rule: prepare_cases[of resolve "operator d" ps])
    case (raises e)
    then show ?thesis using Some
      by (simp add: execute_operator_def ps_def[symmetric] w1 w1_def[symmetric])
  next
    case (invalid x)
    then show ?thesis using Some
      by (simp add: execute_operator_def ps_def[symmetric] w1 w1_def[symmetric] set_failed_def
            update_unlog split: prod.splits sum.splits)
  next
    case (resolved opr)
    then show ?thesis using Some
      by (simp add: execute_operator_def ps_def[symmetric] w1 w1_def[symmetric] set_running_def
            update_unlog unlog_emit Let_def split: prod.splits sum.splits)
  qed
qed

lemma try_block_unlog:
  "try_block resolve False d (unlog w) = map_prod id unlog (try_block resolve log d w)"
proof -
  define w0 where "w0 = (if log then emit (LogInfo ''Running operation'' (doc_id d)) w else w)"
  have u0: "unlog w0 = unlog w" by (simp add: w0_def unlog_emit)
  obtain r1 w1 where e: "execute_operator resolve d w0 = (r1, w1)"
    by (cases "execute_operator resolve d w0") auto
  have e': "execute_operator resolve d (unlog w) = (r1, unlog w1)"
    using execute_operator_unlog[of resolve d w0] e u0 by simp
  show ?thesis
  proof (cases r1)
    case (Inl ex)
    then show ?thesis using e e' by (simp add: try_block_def w0_def[symmetric])
  next
    case (Inr res)
    obtain r2 w2 where u: "repo_update_run_state (doc_id d) COMPLETED res w1 = (r2, w2)"
      by (cases "repo_update_run_state (doc_id d) COMPLETED res w1") auto
    have u': "repo_update_run_state (doc_id d) COMPLETED res (unlog w1) = (r2, unlog w2)"
      using update_unlog[of "doc_id d" COMPLETED res w1] u by simp
    show ?thesis using e e' Inr u u'
      by (cases r2) (simp_all add: try_block_def w0_def[symmetric] set_completed_def unlog_emit)
  qed
qed

lemma execute_queued_op_unlog:
  "execute_queued_op resolve False d (unlog w) = map_prod id unlog (execute_queued_op resolve log d w)"
proof -
  obtain r1 w1 where t: "try_block resolve log d w = (r1, w1)"
    by (cases "try_block resolve log d w") auto
  have t': "try_block resolve False d (unlog w) = (r1, unlog w1)"
    using try_block_unlog[of resolve d w log] t by simp
  show ?thesis
  proof (cases r1)
    case (Inr u)
    then show ?thesis using t t' by (simp add: execute_queued_op_def)
  next
    case (Inl e)
    define fr where "fr = ExecutionResult None (Some (format_exc e))"
    obtain r2 w2 where u: "repo_update_run_state (doc_id d) FAILED (Some fr) w1 = (r2, w2)"
      by (cases "repo_update_run_state (doc_id d) FAILED (Some fr) w1") auto
    have u': "repo_update_run_state (doc_id d) FAILED (Some fr) (unlog w1) = (r2, unlog w2)"
      using update_unlog[of "doc_id d" FAILED "Some fr" w1] u by simp
    show ?thesis using t t' Inl u u'
      by (cases r2) (simp_all add: execute_queued_op_def fr_def[symmetric] set_failed_def unlog_emit)
  qed
qed

lemma for_queued_ops_unlog:
  "for_queued_ops resolve False ops (unlog w) = map_prod id unlog (for_queued_ops resolve log ops w)"
proof (induction ops arbitrary: w)
  case Nil
  then show ?case by simp
next
  case (Cons d ops)
  obtain r1 w1 where s: "execute_queued_op resolve log d w = (r1, w1)"
    by (cases "execute_queued_op resolve log d w") auto
  then have s': "execute_queued_op resolve False d (unlog w) = (r1, unlog w1)"
    by (simp add: execute_queued_op_unlog[of resolve d w log])
  show ?case using s s' Cons.IH[of w1] by (cases r1) simp_all
qed

lemma list_operations_cases:
  obtains (fault) e where "repo_fault w (ListOperations q p) = Some e"
      "list_operations q p w = (Inl e, emit (RepoCall (ListOperations q p)) w)"
  | (ok) "repo_fault w (ListOperations q p) = None"
      "list_operations q p w =
        (Inr (select_operations q p (docs w)), emit (RepoCall (ListOperations q p)) w)"
  by (cases "repo_fault w (ListOperations q p)")
     (auto simp: list_operations_def repo_list_operations_def)

lemma execute_queued_operations_unlog:
  "execute_queued_operations resolve opr tgt dname lim False kwargs (unlog w) =
   map_prod id unlog (execute_queued_operations resolve opr tgt dname lim log kwargs w)"
proof (cases rule: list_operations_cases[of w "queued_query opr tgt dname kwargs" "build_paging lim"])
  case (fault e)
  moreover have "list_operations (queued_query opr tgt dname kwargs) (build_paging lim) (unlog w) =
      (Inl e, unlog (emit (RepoCall (ListOperations (queued_query opr tgt dname kwargs) (build_paging lim))) w))"
    using fault(1) by (simp add: list_operations_def repo_list_operations_def unlog_emit)
  ultimately show ?thesis by (simp add: execute_queued_operations_def)
next
  case ok
  moreover have "list_operations (queued_query opr tgt dname kwargs) (build_paging lim) (unlog w) =
      (Inr (select_operations (queued_query opr tgt dname kwargs) (build_paging lim) (docs w)),
       unlog (emit (RepoCall (ListOperations (queued_query opr tgt dname kwargs) (build_paging lim))) w))"
    using ok(1) by (simp add: list_operations_def repo_list_operations_def unlog_emit)
  ultimately show ?thesis
    by (simp add: execute_queued_operations_def for_queued_ops_unlog[of resolve _ _ log])
qed

lemma execute_queued_operations_returns:
  assumes "repo_fault w (ListOperations (queued_query opr tgt dname kwargs) (build_paging lim)) = None"
    and "\<And>i res. repo_fault w (UpdateRunState i FAILED res) = None"
  shows "\<exists>w'. execute_queued_operations resolve opr tgt dname lim log kwargs w = (Inr (), w')"
proof (cases rule: list_operations_cases[of w "queued_query opr tgt dname kwargs" "build_paging lim"])
  case (fault e)
  then show ?thesis using assms(1) by simp
next
  case ok
  define w1 where "w1 = emit (RepoCall (ListOperations (queued_query opr tgt dname kwargs) (build_paging lim))) w"
  have "\<And>i res. repo_fault w1 (UpdateRunState i FAILED res) = None"
    using assms(2) by (simp add: w1_def)
  moreover have "doc_id ` set (select_operations (queued_query opr tgt dname kwargs) (build_paging lim) (docs w))
      \<subseteq> doc_id ` set (docs w1)"
    using select_operations_subset[of "queued_query opr tgt dname kwargs" "build_paging lim" "docs w"]
    by (auto simp: w1_def)
  ultimately obtain w' where
    "for_queued_ops resolve log
       (select_operations (queued_query opr tgt dname kwargs) (build_paging lim) (docs w)) w1 = (Inr (), w')"
    using for_queued_ops_returns[of w1 _ resolve log] by blast
  then show ?thesis using ok(2) by (simp add: execute_queued_operations_def w1_def)
qed

lemma execute_queued_operations_trace:
  assumes "execute_queued_operations resolve opr tgt dname lim log kwargs w = (r, w')"
  shows "\<exists>segs. trace w' = trace w @
            RepoCall (ListOperations (queued_query opr tgt dname kwargs) (build_paging lim)) # concat segs \<and>
          length segs \<le> length (select_operations (queued_query opr tgt dname kwargs) (build_paging lim) (docs w)) \<and>
          list_all2 handles
            (take (length segs) (select_operations (queued_query opr tgt dname kwargs) (build_paging lim) (docs w)))
            segs \<and>
          (r = Inr () \<longrightarrow>
            length segs = length (select_operations (queued_query opr tgt dname kwargs) (build_paging lim) (docs w)))"
proof (cases rule: list_operations_cases[of w "queued_query opr tgt dname kwargs" "build_paging lim"])
  case (fault e)
  then have "r = Inl e" "w' = emit (RepoCall (ListOperations (queued_query opr tgt dname kwargs) (build_paging lim))) w"
    using assms by (auto simp: execute_queued_operations_def)
  then show ?thesis by (intro exI[of _ "[]"]) simp
next
  case ok
  define w1 where "w1 = emit (RepoCall (ListOperations (queued_query opr tgt dname kwargs) (build_paging lim))) w"
  have "for_queued_ops resolve log
       (select_operations (queued_query opr tgt dname kwargs) (build_paging lim) (docs w)) w1 = (r, w')"
    using assms ok(2) by (simp add: execute_queued_operations_def w1_def)
  from for_queued_ops_trace[OF this] show ?thesis by (simp add: w1_def)
qed

lemma stored_emit [simp]: "stored i (emit e w) = stored i w"
  by (simp add: stored_def)

lemma find_map_same_id:
  "(\<And>x. doc_id (g x) = doc_id x) \<Longrightarrow>
   find (\<lambda>d. doc_id d = i) (map (\<lambda>x. if doc_id x = i then g x else x) ds) =
   map_option g (find (\<lambda>d. doc_id d = i) ds)"
  by (induction ds) auto

lemma update_ok_effect:
  assumes "repo_fault w (UpdateRunState i st res) = None" and "stored i w = Some d0"
  shows "\<exists>w'. repo_update_run_state i st res w = (Inr (set_state st res d0), w') \<and>
          stored i w' = Some (set_state st res d0) \<and> repo_fault w' = repo_fault w \<and>
          trace w' = trace w @ [RepoCall (UpdateRunState i st res)]"
  using assms find_map_same_id[of "set_state st res" i "docs w"]
  by (simp add: update_ok stored_def)

lemma update_fault_effect:
  assumes "repo_fault w (UpdateRunState i st res) = Some e"
  shows "\<exists>w'. repo_update_run_state i st res w = (Inl e, w') \<and>
          stored i w' = stored i w \<and> repo_fault w' = repo_fault w \<and>
          trace w' = trace w @ [RepoCall (UpdateRunState i st res)]"
  using assms by (simp add: update_fault)

lemma execute_operator_resolved:
  assumes ctx: "exec_context d = Some c"
    and ps: "ps = AList.update ''run_doc'' (IdVal (doc_id d)) (request_params c)"
    and res: "resolve (operator d) ps = Resolved opr"
    and st: "stored (doc_id d) w = Some d0"
    and nf: "repo_fault w (UpdateRunState (doc_id d) RUNNING None) = None"
  shows "\<exists>w'. execute_operator resolve d w = (opr \<lparr>request_params = ps\<rparr>, w') \<and>
          stored (doc_id d) w' = Some (d0\<lparr>run_state := RUNNING\<rparr>) \<and>
          repo_fault w' = repo_fault w \<and>
          trace w' = trace w @ [Prepare (operator d) ps,
                                RepoCall (UpdateRunState (doc_id d) RUNNING None),
                                Execute (doc_id d) \<lparr>request_params = ps\<rparr>]"
proof -
  define w1 where "w1 = emit (Prepare (operator d) ps) w"
  have "repo_fault w1 (UpdateRunState (doc_id d) RUNNING None) = None" "stored (doc_id d) w1 = Some d0"
    using nf st by (simp_all add: w1_def)
  from update_ok_effect[OF this] obtain w2 where
    u: "repo_update_run_state (doc_id d) RUNNING None w1 = (Inr (set_state RUNNING None d0), w2)"
    and w2: "stored (doc_id d) w2 = Some (set_state RUNNING None d0)" "repo_fault w2 = repo_fault w1"
      "trace w2 = trace w1 @ [RepoCall (UpdateRunState (doc_id d) RUNNING None)]"
    by blast
  have p: "prepare_operator_executor resolve (operator d) ps = Inr (PreparedExecutor opr \<lparr>request_params = ps\<rparr>)"
    using res by (simp add: prepare_operator_executor_def)
  have "execute_operator resolve d w =
      (opr \<lparr>request_params = ps\<rparr>, emit (Execute (doc_id d) \<lparr>request_params = ps\<rparr>) w2)"
    using ctx p u
    by (cases "opr \<lparr>request_params = ps\<rparr>")
       (simp_all add: execute_operator_def ps[symmetric] w1_def[symmetric] set_running_def)
  then show ?thesis using w2 by (simp add: w1_def set_state_def)
qed

lemma find_append_Some: "find P xs = Some x \<Longrightarrow> find P (xs @ ys) = Some x"
  by (induction xs) (auto split: if_splits)

lemmas scenario_defs = scenario_world_def queued_doc_def scenario_resolver_def echo_operator_def
  raising_operator_def

lemma scenario_selected:
  "select_operations (queued_query None None None []) None (docs scenario_world) = docs scenario_world"
  by (simp add: select_operations_def matches_def queued_query_def scenario_defs)

section \<open>The claims\<close>

subsection \<open>C1\<close>

text \<open>
  Claim C1. For a stored document, behind a repository that answers the \<^verbatim>\<open>get\<close> and the
  \<^verbatim>\<open>queue_operation\<close> call and whose stored ids lie below the next id it assigns,
  \<^verbatim>\<open>rerun_operation\<close> queues and returns a new document: its operator, context and
  delegation target are those of the original, its id differs from the original's (it is
  the id of no stored document), it is QUEUED, it is appended to the store, and the
  original is still stored, unchanged.
\<close>

theorem rerun_queues_a_copy:
  assumes st: "stored i w = Some d"
    and nf1: "repo_fault w (GetDoc i) = None"
    and nf2: "repo_fault w (QueueOperation (operator d) (delegation_target d) (exec_context d)) = None"
    and fresh: "\<forall>x \<in> set (docs w). doc_id x < next_id w"
  shows "\<exists>d' w'. rerun_operation i w = (Inr d', w') \<and>
      operator d' = operator d \<and> exec_context d' = exec_context d \<and>
      delegation_target d' = delegation_target d \<and>
      doc_id d' \<noteq> doc_id d \<and> doc_id d' \<notin> doc_id ` set (docs w) \<and>
      run_state d' = QUEUED \<and> docs w' = docs w @ [d'] \<and> stored i w' = Some d"
proof -
  define d' where "d' = \<lparr>doc_id = next_id w, operator = operator d,
      delegation_target = delegation_target d, exec_context = exec_context d, run_state = QUEUED,
      result = None, pinned = False, dataset_id = None, dataset_name = None\<rparr>"
  define w1 where "w1 = emit (RepoCall (GetDoc i)) w"
  define w' where "w' = (emit (RepoCall (QueueOperation (operator d) (delegation_target d) (exec_context d))) w1)
      \<lparr>docs := docs w1 @ [d'], next_id := Suc (next_id w1)\<rparr>"
  have g: "repo_get i w = (Inr d, w1)"
    using st nf1 by (simp add: repo_get_def stored_def w1_def)
  have q: "repo_queue_operation (operator d) (delegation_target d) (exec_context d) w1 = (Inr d', w')"
    using nf2 by (simp add: repo_queue_operation_def w1_def w'_def d'_def Let_def)
  have r: "rerun_operation i w = (Inr d', w')"
    using g q by (simp add: rerun_operation_def)
  have din: "d \<in> set (docs w)" "doc_id d = i"
    using st by (auto simp: stored_def find_Some_iff)
  have new: "doc_id d' \<notin> doc_id ` set (docs w)"
    using fresh by (auto simp: d'_def)
  then have ne: "doc_id d' \<noteq> doc_id d" using din(1) by auto
  have "stored i w' = Some d"
    using st by (simp add: stored_def w'_def w1_def find_append_Some)
  then show ?thesis using r new ne
    by (intro exI[of _ d'] exI[of _ w']) (simp add: d'_def w'_def w1_def)
qed

text \<open>
  An instance in the scenario.
\<close>

theorem rerun_queues_a_copy_witness:
  "\<exists>d' w'. rerun_operation 0 scenario_world = (Inr d', w') \<and>
      operator d' = ''echo'' \<and>
      exec_context d' = Some \<lparr>request_params = [(''msg'', StrVal ''hi'')]\<rparr> \<and>
      delegation_target d' = None \<and> doc_id d' \<noteq> 0 \<and>
      run_state d' = QUEUED \<and> docs w' = docs scenario_world @ [d'] \<and>
      stored 0 w' = Some (queued_doc 0 ''echo'' (Some \<lparr>request_params = [(''msg'', StrVal ''hi'')]\<rparr>))"
proof -
  have st: "stored 0 scenario_world =
      Some (queued_doc 0 ''echo'' (Some \<lparr>request_params = [(''msg'', StrVal ''hi'')]\<rparr>))"
    by (simp add: stored_def scenario_defs)
  have nf1: "repo_fault scenario_world (GetDoc 0) = None" by (simp add: scenario_defs)
  have nf2: "repo_fault scenario_world
      (QueueOperation (operator (queued_doc 0 ''echo'' (Some \<lparr>request_params = [(''msg'', StrVal ''hi'')]\<rparr>)))
         (delegation_target (queued_doc 0 ''echo'' (Some \<lparr>request_params = [(''msg'', StrVal ''hi'')]\<rparr>)))
         (exec_context (queued_doc 0 ''echo'' (Some \<lparr>request_params = [(''msg'', StrVal ''hi'')]\<rparr>)))) = None"
    by (simp add: scenario_defs)
  have fresh: "\<forall>x \<in> set (docs scenario_world). doc_id x < next_id scenario_world"
    by (simp add: scenario_defs)
  from rerun_queues_a_copy[OF st nf1 nf2 fresh] obtain d' w' where
    "rerun_operation 0 scenario_world = (Inr d', w')"
    "operator d' = operator (queued_doc 0 ''echo'' (Some \<lparr>request_params = [(''msg'', StrVal ''hi'')]\<rparr>))"
    "exec_context d' = exec_context (queued_doc 0 ''echo'' (Some \<lparr>request_params = [(''msg'', StrVal ''hi'')]\<rparr>))"
    "delegation_target d' =
       delegation_target (queued_doc 0 ''echo'' (Some \<lparr>request_params = [(''msg'', StrVal ''hi'')]\<rparr>))"
    "doc_id d' \<noteq> doc_id (queued_doc 0 ''echo'' (Some \<lparr>request_params = [(''msg'', StrVal ''hi'')]\<rparr>))"
    "run_state d' = QUEUED" "docs w' = docs scenario_world @ [d']"
    "stored 0 w' = Some (queued_doc 0 ''echo'' (Some \<lparr>request_params = [(''msg'', StrVal ''hi'')]\<rparr>))"
    by blast
  then show ?thesis
    by (intro exI[of _ d'] exI[of _ w']) (simp add: queued_doc_def)
qed

subsection \<open>C2\<close>

text \<open>
  Claim C2, at the scenario's document 2, whose operator \<^verbatim>\<open>invalid-params\<close> resolves to
  an immediate failure result. The pass returns normally; after the listing the events
  are the resolver call, the write of FAILED with the failure result and then the write
  of COMPLETED with no result (\<^verbatim>\<open>_execute_operator\<close> returns \<^verbatim>\<open>None\<close> after
  \<^verbatim>\<open>set_failed\<close>, and the loop goes on to \<^verbatim>\<open>set_completed\<close>). RUNNING is never
  written and no entry point is invoked, but the document ends the pass COMPLETED, its
  result erased, where the claim has it end FAILED.
\<close>

theorem immediate_failure_ends_completed:
  "fst (execute_queued_operations scenario_resolver (Some ''invalid-params'') None None None False []
          scenario_world) = Inr () \<and>
   map_option run_state
     (stored 2 (snd (execute_queued_operations scenario_resolver (Some ''invalid-params'') None None None
        False [] scenario_world))) = Some COMPLETED \<and>
   map_option result
     (stored 2 (snd (execute_queued_operations scenario_resolver (Some ''invalid-params'') None None None
        False [] scenario_world))) = Some None \<and>
   tl (trace (snd (execute_queued_operations scenario_resolver (Some ''invalid-params'') None None None
        False [] scenario_world))) =
     [Prepare ''invalid-params'' [(''run_doc'', IdVal 2)],
      RepoCall (UpdateRunState 2 FAILED (Some (ExecutionResult None (Some ''Validation error'')))),
      RepoCall (UpdateRunState 2 COMPLETED None)]"
  by (simp add: execute_queued_operations_def build_paging_def queued_query_def list_operations_def
        repo_list_operations_def select_operations_def matches_def execute_queued_op_def
        try_block_def execute_operator_def prepare_operator_executor_def set_failed_def
        set_completed_def repo_update_run_state_def set_state_def emit_def stored_def
        scenario_defs Let_def)

subsection \<open>C3\<close>

text \<open>
  Claim C3. When the repository answers the listing and every write of the FAILED state,
  \<^verbatim>\<open>execute_queued_operations\<close> returns without raising, whatever the resolver and the
  operators do (raise or return), and the log after the listing call is one non-empty
  stretch of events per listed document, in the order of the listing, each stretch about
  its document only: the documents are handled one after the other, and none is skipped
  because an earlier one raised.
\<close>

theorem batch_is_sequential_and_returns:
  assumes "repo_fault w (ListOperations (queued_query opr tgt dname kwargs) (build_paging lim)) = None"
    and "\<And>i res. repo_fault w (UpdateRunState i FAILED res) = None"
  shows "\<exists>w' segs.
      execute_queued_operations resolve opr tgt dname lim log kwargs w = (Inr (), w') \<and>
      trace w' = trace w @
        RepoCall (ListOperations (queued_query opr tgt dname kwargs) (build_paging lim)) # concat segs \<and>
      list_all2 handles
        (select_operations (queued_query opr tgt dname kwargs) (build_paging lim) (docs w)) segs"
proof -
  from execute_queued_operations_returns[OF assms, of resolve log] obtain w' where
    r: "execute_queued_operations resolve opr tgt dname lim log kwargs w = (Inr (), w')" by blast
  from execute_queued_operations_trace[OF r] obtain segs where
    "trace w' = trace w @
        RepoCall (ListOperations (queued_query opr tgt dname kwargs) (build_paging lim)) # concat segs"
    "list_all2 handles
        (take (length segs) (select_operations (queued_query opr tgt dname kwargs) (build_paging lim) (docs w)))
        segs"
    "length segs = length (select_operations (queued_query opr tgt dname kwargs) (build_paging lim) (docs w))"
    by blast
  then show ?thesis using r by auto
qed

text \<open>
  An instance in the scenario.
\<close>

theorem batch_is_sequential_and_returns_witness:
  "\<exists>w' segs.
      execute_queued_operations scenario_resolver None None None None False [] scenario_world = (Inr (), w') \<and>
      trace w' = trace scenario_world @
        RepoCall (ListOperations (queued_query None None None []) (build_paging None)) # concat segs \<and>
      list_all2 handles (docs scenario_world) segs"
proof -
  have h1: "repo_fault scenario_world (ListOperations (queued_query None None None []) (build_paging None)) = None"
    by (simp add: scenario_defs)
  have h2: "\<And>i res. repo_fault scenario_world (UpdateRunState i FAILED res) = None"
    by (simp add: scenario_defs)
  from batch_is_sequential_and_returns[where resolve = scenario_resolver and log = False, OF h1 h2]
  show ?thesis by (simp add: scenario_selected build_paging_def)
qed

subsection \<open>C4\<close>

text \<open>
  Claim C4. For a stored document with a context whose operator resolves and whose entry
  point raises an exception \<open>e\<close>, the loop iteration returns normally and leaves the
  document FAILED with the result \<^verbatim>\<open>ExecutionResult(error=traceback.format_exc())\<close>, the
  trace of \<open>e\<close>; the events are the resolver call, the RUNNING write, the execution
  and the FAILED write, within the log lines when logging is on. The repository is taken
  to accept the RUNNING and the FAILED write.
\<close>

theorem raising_operator_ends_failed_with_trace:
  assumes ctx: "exec_context d = Some c"
    and ps: "ps = AList.update ''run_doc'' (IdVal (doc_id d)) (request_params c)"
    and res: "resolve (operator d) ps = Resolved opr"
    and exe: "opr \<lparr>request_params = ps\<rparr> = Inl e"
    and st: "stored (doc_id d) w = Some d0"
    and nf1: "repo_fault w (UpdateRunState (doc_id d) RUNNING None) = None"
    and nf2: "repo_fault w (UpdateRunState (doc_id d) FAILED
                (Some (ExecutionResult None (Some (format_exc e))))) = None"
  shows "\<exists>w'. execute_queued_op resolve log d w = (Inr (), w') \<and>
            stored (doc_id d) w' =
              Some (d0\<lparr>run_state := FAILED,
                       result := Some (ExecutionResult None (Some (format_exc e)))\<rparr>) \<and>
            trace w' = trace w @
              (if log then [LogInfo ''Running operation'' (doc_id d)] else []) @
              [Prepare (operator d) ps,
               RepoCall (UpdateRunState (doc_id d) RUNNING None),
               Execute (doc_id d) \<lparr>request_params = ps\<rparr>,
               RepoCall (UpdateRunState (doc_id d) FAILED
                 (Some (ExecutionResult None (Some (format_exc e)))))] @
              (if log then [LogInfo ''Operation failed'' (doc_id d)] else [])"
proof -
  define fr where "fr = ExecutionResult None (Some (format_exc e))"
  define w0 where "w0 = (if log then emit (LogInfo ''Running operation'' (doc_id d)) w else w)"
  have "stored (doc_id d) w0 = Some d0" "repo_fault w0 (UpdateRunState (doc_id d) RUNNING None) = None"
    using st nf1 by (simp_all add: w0_def)
  from execute_operator_resolved[of d c ps resolve opr w0 d0, OF ctx ps res this] obtain w1 where
    e: "execute_operator resolve d w0 = (Inl e, w1)"
    and w1: "stored (doc_id d) w1 = Some (d0\<lparr>run_state := RUNNING\<rparr>)" "repo_fault w1 = repo_fault w0"
      "trace w1 = trace w0 @ [Prepare (operator d) ps,
                                RepoCall (UpdateRunState (doc_id d) RUNNING None),
                                Execute (doc_id d) \<lparr>request_params = ps\<rparr>]"
    using exe by auto
  have t: "try_block resolve log d w = (Inl e, w1)"
    using e by (simp add: try_block_def w0_def[symmetric])
  have "repo_fault w1 (UpdateRunState (doc_id d) FAILED (Some fr)) = None"
    using nf2 w1(2) by (simp add: w0_def fr_def)
  from update_ok_effect[OF this w1(1)] obtain w2 where
    u: "repo_update_run_state (doc_id d) FAILED (Some fr) w1 =
          (Inr (set_state FAILED (Some fr) (d0\<lparr>run_state := RUNNING\<rparr>)), w2)"
    and w2: "stored (doc_id d) w2 = Some (set_state FAILED (Some fr) (d0\<lparr>run_state := RUNNING\<rparr>))"
      "trace w2 = trace w1 @ [RepoCall (UpdateRunState (doc_id d) FAILED (Some fr))]"
    by blast
  show ?thesis
    unfolding fr_def[symmetric]
    using t u w1(3) w2
    by (simp add: execute_queued_op_def fr_def[symmetric] set_failed_def w0_def set_state_def)
qed

text \<open>
  An instance in the scenario.
\<close>

theorem raising_operator_ends_failed_with_trace_witness:
  "\<exists>w'. execute_queued_op scenario_resolver False (queued_doc 1 ''boom'' (Some \<lparr>request_params = []\<rparr>))
          scenario_world = (Inr (), w') \<and>
        map_option run_state (stored 1 w') = Some FAILED \<and>
        map_option result (stored 1 w') =
          Some (Some (ExecutionResult None (Some ''RuntimeError: boom''))) \<and>
        run_state_updates (trace w') =
          [(1, RUNNING, None),
           (1, FAILED, Some (ExecutionResult None (Some ''RuntimeError: boom'')))]"
proof -
  define d where "d = queued_doc 1 ''boom'' (Some \<lparr>request_params = []\<rparr>)"
  define ps where "ps = AList.update ''run_doc'' (IdVal (doc_id d)) (request_params \<lparr>request_params = []\<rparr>)"
  have ctx: "exec_context d = Some \<lparr>request_params = []\<rparr>" by (simp add: d_def queued_doc_def)
  have res: "scenario_resolver (operator d) ps = Resolved raising_operator"
    by (simp add: d_def scenario_defs)
  have exe: "raising_operator \<lparr>request_params = ps\<rparr> = Inl (PyException ''RuntimeError: boom'')"
    by (simp add: raising_operator_def)
  have st: "stored (doc_id d) scenario_world = Some d"
    by (simp add: d_def stored_def scenario_defs)
  have nf1: "repo_fault scenario_world (UpdateRunState (doc_id d) RUNNING None) = None"
    by (simp add: scenario_defs)
  have nf2: "repo_fault scenario_world (UpdateRunState (doc_id d) FAILED
      (Some (ExecutionResult None (Some (format_exc (PyException ''RuntimeError: boom'')))))) = None"
    by (simp add: scenario_defs)
  from raising_operator_ends_failed_with_trace
    [of d "\<lparr>request_params = []\<rparr>" ps scenario_resolver raising_operator
        "PyException ''RuntimeError: boom''" scenario_world d False,
     OF ctx ps_def res exe st nf1 nf2]
  obtain w' where
    "execute_queued_op scenario_resolver False d scenario_world = (Inr (), w')"
    "stored (doc_id d) w' =
       Some (d\<lparr>run_state := FAILED,
               result := Some (ExecutionResult None (Some (format_exc (PyException ''RuntimeError: boom''))))\<rparr>)"
    "trace w' = trace scenario_world @ [] @
       [Prepare (operator d) ps, RepoCall (UpdateRunState (doc_id d) RUNNING None),
        Execute (doc_id d) \<lparr>request_params = ps\<rparr>,
        RepoCall (UpdateRunState (doc_id d) FAILED
          (Some (ExecutionResult None (Some (format_exc (PyException ''RuntimeError: boom''))))))] @ []"
    by auto
  then show ?thesis
    unfolding d_def[symmetric]
    by (intro exI[of _ w']) (simp add: d_def scenario_defs)
qed

subsection \<open>C5\<close>

text \<open>
  Claim C5. If \<^verbatim>\<open>execute_queued_operations\<close> completes its pass (it returns without an
  exception), then every document it listed is stored in a terminal run state, COMPLETED
  or FAILED.
\<close>

theorem pass_leaves_documents_terminal:
  assumes "execute_queued_operations resolve opr tgt dname lim log kwargs w = (Inr (), w')"
  shows "\<forall>d \<in> set (select_operations (queued_query opr tgt dname kwargs) (build_paging lim) (docs w)).
           settled (doc_id d) w'"
proof (cases rule: list_operations_cases[of w "queued_query opr tgt dname kwargs" "build_paging lim"])
  case (fault e)
  then show ?thesis using assms by (simp add: execute_queued_operations_def)
next
  case ok
  then have "for_queued_ops resolve log
       (select_operations (queued_query opr tgt dname kwargs) (build_paging lim) (docs w))
       (emit (RepoCall (ListOperations (queued_query opr tgt dname kwargs) (build_paging lim))) w) = (Inr (), w')"
    using assms by (simp add: execute_queued_operations_def)
  then show ?thesis by (rule for_queued_ops_settles)
qed

text \<open>
  An instance in the scenario.
\<close>

theorem pass_leaves_documents_terminal_witness:
  "\<exists>w'. execute_queued_operations scenario_resolver None None None None False [] scenario_world = (Inr (), w') \<and>
      settled 0 w' \<and> settled 1 w' \<and> settled 2 w' \<and> settled 3 w'"
proof -
  have h1: "repo_fault scenario_world (ListOperations (queued_query None None None []) (build_paging None)) = None"
    by (simp add: scenario_defs)
  have h2: "\<And>i res. repo_fault scenario_world (UpdateRunState i FAILED res) = None"
    by (simp add: scenario_defs)
  from execute_queued_operations_returns[where resolve = scenario_resolver and log = False, OF h1 h2]
  obtain w' where
    r: "execute_queued_operations scenario_resolver None None None None False [] scenario_world = (Inr (), w')"
    by blast
  from pass_leaves_documents_terminal[OF r]
  have "\<forall>d \<in> set (docs scenario_world). settled (doc_id d) w'"
    by (simp add: scenario_selected build_paging_def)
  then have "settled 0 w' \<and> settled 1 w' \<and> settled 2 w' \<and> settled 3 w'"
    by (simp add: scenario_defs)
  then show ?thesis using r by blast
qed

subsection \<open>C6\<close>

text \<open>
  Claim C6. For a stored QUEUED document with a context whose operator resolves and whose
  entry point returns \<open>r\<close>, behind a repository that accepts the RUNNING and the
  COMPLETED write: \<^verbatim>\<open>_execute_operator\<close> calls the resolver, writes RUNNING, then calls
  the entry point and returns \<open>r\<close>, leaving the document RUNNING; the loop iteration then
  writes COMPLETED with \<open>r\<close> and returns normally. The stored state goes QUEUED,
  RUNNING, COMPLETED.
\<close>

theorem resolved_operation_runs_then_completes:
  assumes ctx: "exec_context d = Some c"
    and ps: "ps = AList.update ''run_doc'' (IdVal (doc_id d)) (request_params c)"
    and res: "resolve (operator d) ps = Resolved opr"
    and exe: "opr \<lparr>request_params = ps\<rparr> = Inr r"
    and st: "stored (doc_id d) w = Some d0"
    and que: "run_state d0 = QUEUED"
    and nf1: "repo_fault w (UpdateRunState (doc_id d) RUNNING None) = None"
    and nf2: "repo_fault w (UpdateRunState (doc_id d) COMPLETED r) = None"
  shows "map_option run_state (stored (doc_id d) w) = Some QUEUED \<and>
         (\<exists>w1. execute_operator resolve d w = (Inr r, w1) \<and>
            stored (doc_id d) w1 = Some (d0\<lparr>run_state := RUNNING\<rparr>) \<and>
            trace w1 = trace w @
              [Prepare (operator d) ps,
               RepoCall (UpdateRunState (doc_id d) RUNNING None),
               Execute (doc_id d) \<lparr>request_params = ps\<rparr>]) \<and>
         (\<exists>w'. execute_queued_op resolve log d w = (Inr (), w') \<and>
            stored (doc_id d) w' = Some (d0\<lparr>run_state := COMPLETED, result := r\<rparr>) \<and>
            trace w' = trace w @
              (if log then [LogInfo ''Running operation'' (doc_id d)] else []) @
              [Prepare (operator d) ps,
               RepoCall (UpdateRunState (doc_id d) RUNNING None),
               Execute (doc_id d) \<lparr>request_params = ps\<rparr>,
               RepoCall (UpdateRunState (doc_id d) COMPLETED r)] @
              (if log then [LogInfo ''Operation complete'' (doc_id d)] else []))"
proof (intro conjI)
  show "map_option run_state (stored (doc_id d) w) = Some QUEUED"
    using st que by simp
next
  show "\<exists>w1. execute_operator resolve d w = (Inr r, w1) \<and>
            stored (doc_id d) w1 = Some (d0\<lparr>run_state := RUNNING\<rparr>) \<and>
            trace w1 = trace w @
              [Prepare (operator d) ps,
               RepoCall (UpdateRunState (doc_id d) RUNNING None),
               Execute (doc_id d) \<lparr>request_params = ps\<rparr>]"
    using execute_operator_resolved[of d c ps resolve opr w d0, OF ctx ps res st nf1] exe by auto
next
  define w0 where "w0 = (if log then emit (LogInfo ''Running operation'' (doc_id d)) w else w)"
  have "stored (doc_id d) w0 = Some d0" "repo_fault w0 (UpdateRunState (doc_id d) RUNNING None) = None"
    using st nf1 by (simp_all add: w0_def)
  from execute_operator_resolved[of d c ps resolve opr w0 d0, OF ctx ps res this] obtain w1 where
    e: "execute_operator resolve d w0 = (Inr r, w1)"
    and w1: "stored (doc_id d) w1 = Some (d0\<lparr>run_state := RUNNING\<rparr>)" "repo_fault w1 = repo_fault w0"
      "trace w1 = trace w0 @ [Prepare (operator d) ps,
                                RepoCall (UpdateRunState (doc_id d) RUNNING None),
                                Execute (doc_id d) \<lparr>request_params = ps\<rparr>]"
    using exe by auto
  have "repo_fault w1 (UpdateRunState (doc_id d) COMPLETED r) = None"
    using nf2 w1(2) by (simp add: w0_def)
  from update_ok_effect[OF this w1(1)] obtain w2 where
    u: "repo_update_run_state (doc_id d) COMPLETED r w1 =
          (Inr (set_state COMPLETED r (d0\<lparr>run_state := RUNNING\<rparr>)), w2)"
    and w2: "stored (doc_id d) w2 = Some (set_state COMPLETED r (d0\<lparr>run_state := RUNNING\<rparr>))"
      "trace w2 = trace w1 @ [RepoCall (UpdateRunState (doc_id d) COMPLETED r)]"
    by blast
  have t: "try_block resolve log d w =
      (Inr (), if log then emit (LogInfo ''Operation complete'' (doc_id d)) w2 else w2)"
    using e u by (simp add: try_block_def w0_def[symmetric] set_completed_def)
  show "\<exists>w'. execute_queued_op resolve log d w = (Inr (), w') \<and>
            stored (doc_id d) w' = Some (d0\<lparr>run_state := COMPLETED, result := r\<rparr>) \<and>
            trace w' = trace w @
              (if log then [LogInfo ''Running operation'' (doc_id d)] else []) @
              [Prepare (operator d) ps,
               RepoCall (UpdateRunState (doc_id d) RUNNING None),
               Execute (doc_id d) \<lparr>request_params = ps\<rparr>,
               RepoCall (UpdateRunState (doc_id d) COMPLETED r)] @
              (if log then [LogInfo ''Operation complete'' (doc_id d)] else [])"
    using t w1(3) w2 by (simp add: execute_queued_op_def w0_def set_state_def)
qed

text \<open>
  An instance in the scenario.
\<close>

theorem resolved_operation_runs_then_completes_witness:
  "(\<exists>w1. execute_operator scenario_resolver
            (queued_doc 0 ''echo'' (Some \<lparr>request_params = [(''msg'', StrVal ''hi'')]\<rparr>)) scenario_world =
            (Inr (Some (ExecutionResult (Some [(''msg'', StrVal ''hi''), (''run_doc'', IdVal 0)]) None)), w1) \<and>
          map_option run_state (stored 0 w1) = Some RUNNING) \<and>
   (\<exists>w'. execute_queued_op scenario_resolver False
            (queued_doc 0 ''echo'' (Some \<lparr>request_params = [(''msg'', StrVal ''hi'')]\<rparr>)) scenario_world =
            (Inr (), w') \<and>
          map_option run_state (stored 0 w') = Some COMPLETED \<and>
          map_option result (stored 0 w') =
            Some (Some (ExecutionResult (Some [(''msg'', StrVal ''hi''), (''run_doc'', IdVal 0)]) None)) \<and>
          run_state_updates (trace w') =
            [(0, RUNNING, None),
             (0, COMPLETED,
              Some (ExecutionResult (Some [(''msg'', StrVal ''hi''), (''run_doc'', IdVal 0)]) None))])"
proof -
  define c where "c = \<lparr>request_params = [(''msg'', StrVal ''hi'')]\<rparr>"
  define d where "d = queued_doc 0 ''echo'' (Some c)"
  define ps where "ps = AList.update ''run_doc'' (IdVal (doc_id d)) (request_params c)"
  define r where "r = Some (ExecutionResult (Some ps) None)"
  have psv: "ps = [(''msg'', StrVal ''hi''), (''run_doc'', IdVal 0)]"
    by (simp add: ps_def d_def c_def queued_doc_def)
  have ctx: "exec_context d = Some c" by (simp add: d_def queued_doc_def)
  have res: "scenario_resolver (operator d) ps = Resolved echo_operator"
    by (simp add: d_def scenario_defs)
  have exe: "echo_operator \<lparr>request_params = ps\<rparr> = Inr r"
    by (simp add: echo_operator_def r_def)
  have st: "stored (doc_id d) scenario_world = Some d"
    by (simp add: d_def c_def stored_def scenario_defs)
  have que: "run_state d = QUEUED" by (simp add: d_def queued_doc_def)
  have nf1: "repo_fault scenario_world (UpdateRunState (doc_id d) RUNNING None) = None"
    by (simp add: scenario_defs)
  have nf2: "repo_fault scenario_world (UpdateRunState (doc_id d) COMPLETED r) = None"
    by (simp add: scenario_defs)
  note t = resolved_operation_runs_then_completes
    [of d c ps scenario_resolver echo_operator r scenario_world d False,
     OF ctx ps_def res exe st que nf1 nf2]
  from t obtain w1 where w1:
    "execute_operator scenario_resolver d scenario_world = (Inr r, w1)"
    "stored (doc_id d) w1 = Some (d\<lparr>run_state := RUNNING\<rparr>)"
    by blast
  from t obtain w' where w':
    "execute_queued_op scenario_resolver False d scenario_world = (Inr (), w')"
    "stored (doc_id d) w' = Some (d\<lparr>run_state := COMPLETED, result := r\<rparr>)"
    "trace w' = trace scenario_world @ [] @
       [Prepare (operator d) ps, RepoCall (UpdateRunState (doc_id d) RUNNING None),
        Execute (doc_id d) \<lparr>request_params = ps\<rparr>,
        RepoCall (UpdateRunState (doc_id d) COMPLETED r)] @ []"
    by auto
  have id0: "doc_id d = 0" by (simp add: d_def queued_doc_def)
  have a: "\<exists>w1. execute_operator scenario_resolver d scenario_world = (Inr r, w1) \<and>
          map_option run_state (stored 0 w1) = Some RUNNING"
    using w1 id0 by (intro exI[of _ w1]) simp
  have b: "\<exists>w'. execute_queued_op scenario_resolver False d scenario_world = (Inr (), w') \<and>
          map_option run_state (stored 0 w') = Some COMPLETED \<and>
          map_option result (stored 0 w') = Some r \<and>
          run_state_updates (trace w') = [(0, RUNNING, None), (0, COMPLETED, r)]"
    using w' id0 by (intro exI[of _ w']) (simp add: scenario_world_def)
  show ?thesis using a b unfolding r_def psv d_def c_def by blast
qed

subsection \<open>C7\<close>

text \<open>
  Claim C7. With \<^verbatim>\<open>limit=n\<close> for a positive \<open>n\<close> the listing is asked with the paging
  parameters \<^verbatim>\<open>DelegatedOpPagingParams(limit=n)\<close> and the events that follow are about at
  most \<open>n\<close> documents. Without a limit the listing is asked with no paging, and when the
  pass completes the events that follow are about exactly the stored documents that match
  the QUEUED query.
\<close>

theorem limit_bounds_the_batch:
  "(0 < n \<longrightarrow>
      (\<exists>r w' rest.
         execute_queued_operations resolve opr tgt dname (Some n) log kwargs w = (r, w') \<and>
         trace w' = trace w @
           RepoCall (ListOperations (queued_query opr tgt dname kwargs) (Some \<lparr>limit = n\<rparr>)) # rest \<and>
         length (processed_ids rest) \<le> nat n)) \<and>
   (execute_queued_operations resolve opr tgt dname None log kwargs w = (Inr (), w0) \<longrightarrow>
      (\<exists>rest.
         trace w0 = trace w @
           RepoCall (ListOperations (queued_query opr tgt dname kwargs) None) # rest \<and>
         set (processed_ids rest) =
           doc_id ` set (filter (matches (queued_query opr tgt dname kwargs)) (docs w))))"
proof (intro conjI impI)
  obtain r w' where e: "execute_queued_operations resolve opr tgt dname (Some n) log kwargs w = (r, w')"
    by (cases "execute_queued_operations resolve opr tgt dname (Some n) log kwargs w") auto
  have bp: "build_paging (Some n) = Some \<lparr>limit = n\<rparr>" by (simp add: build_paging_def)
  from execute_queued_operations_trace[OF e] obtain segs where
    t: "trace w' = trace w @
        RepoCall (ListOperations (queued_query opr tgt dname kwargs) (Some \<lparr>limit = n\<rparr>)) # concat segs"
    and h: "list_all2 handles
        (take (length segs) (select_operations (queued_query opr tgt dname kwargs) (Some \<lparr>limit = n\<rparr>) (docs w)))
        segs"
    unfolding bp by blast
  have "length (processed_ids (concat segs)) \<le>
      length (take (length segs) (select_operations (queued_query opr tgt dname kwargs) (Some \<lparr>limit = n\<rparr>) (docs w)))"
    by (rule processed_ids_bound[OF h])
  also have "\<dots> \<le> length (select_operations (queued_query opr tgt dname kwargs) (Some \<lparr>limit = n\<rparr>) (docs w))"
    by simp
  also have "\<dots> \<le> nat n" by (rule select_operations_limit)
  finally show "\<exists>r w' rest.
         execute_queued_operations resolve opr tgt dname (Some n) log kwargs w = (r, w') \<and>
         trace w' = trace w @
           RepoCall (ListOperations (queued_query opr tgt dname kwargs) (Some \<lparr>limit = n\<rparr>)) # rest \<and>
         length (processed_ids rest) \<le> nat n"
    using e t by blast
next
  assume e: "execute_queued_operations resolve opr tgt dname None log kwargs w = (Inr (), w0)"
  have bp: "build_paging None = None" by (simp add: build_paging_def)
  from execute_queued_operations_trace[OF e] obtain segs where
    t: "trace w0 = trace w @
        RepoCall (ListOperations (queued_query opr tgt dname kwargs) None) # concat segs"
    and h: "list_all2 handles
        (take (length segs) (select_operations (queued_query opr tgt dname kwargs) None (docs w))) segs"
    and l: "length segs = length (select_operations (queued_query opr tgt dname kwargs) None (docs w))"
    unfolding bp by blast
  have "set (processed_ids (concat segs)) =
      doc_id ` set (select_operations (queued_query opr tgt dname kwargs) None (docs w))"
    using handled_ids[OF h] l by (simp add: processed_ids_def)
  then show "\<exists>rest.
         trace w0 = trace w @
           RepoCall (ListOperations (queued_query opr tgt dname kwargs) None) # rest \<and>
         set (processed_ids rest) =
           doc_id ` set (filter (matches (queued_query opr tgt dname kwargs)) (docs w))"
    using t by (auto simp: select_operations_all)
qed

text \<open>
  An instance in the scenario.
\<close>

theorem limit_bounds_the_batch_witness:
  "(\<exists>r w' rest.
      execute_queued_operations scenario_resolver None None None (Some 2) False [] scenario_world = (r, w') \<and>
      trace w' = trace scenario_world @
        RepoCall (ListOperations (queued_query None None None []) (Some \<lparr>limit = 2\<rparr>)) # rest \<and>
      length (processed_ids rest) \<le> 2) \<and>
   (\<exists>w0 rest.
      execute_queued_operations scenario_resolver None None None None False [] scenario_world = (Inr (), w0) \<and>
      trace w0 = trace scenario_world @
        RepoCall (ListOperations (queued_query None None None []) None) # rest \<and>
      set (processed_ids rest) = {0, 1, 2, 3})"
proof -
  have h1: "repo_fault scenario_world (ListOperations (queued_query None None None []) (build_paging None)) = None"
    by (simp add: scenario_defs)
  have h2: "\<And>i res. repo_fault scenario_world (UpdateRunState i FAILED res) = None"
    by (simp add: scenario_defs)
  from execute_queued_operations_returns[where resolve = scenario_resolver and log = False, OF h1 h2]
  obtain w0 where
    r: "execute_queued_operations scenario_resolver None None None None False [] scenario_world = (Inr (), w0)"
    by blast
  have m: "doc_id ` set (filter (matches (queued_query None None None [])) (docs scenario_world)) = {0, 1, 2, 3}"
    by (simp add: matches_def queued_query_def scenario_defs)
  note t = limit_bounds_the_batch[of 2 scenario_resolver None None None False "[]" scenario_world w0]
  have pos: "(0::int) < 2" by simp
  from t pos have a: "\<exists>r w' rest.
      execute_queued_operations scenario_resolver None None None (Some 2) False [] scenario_world = (r, w') \<and>
      trace w' = trace scenario_world @
        RepoCall (ListOperations (queued_query None None None []) (Some \<lparr>limit = 2\<rparr>)) # rest \<and>
      length (processed_ids rest) \<le> nat 2"
    by blast
  from t r have "\<exists>rest.
      trace w0 = trace scenario_world @
        RepoCall (ListOperations (queued_query None None None []) None) # rest \<and>
      set (processed_ids rest) =
        doc_id ` set (filter (matches (queued_query None None None [])) (docs scenario_world))"
    by blast
  then have b: "\<exists>w0 rest.
      execute_queued_operations scenario_resolver None None None None False [] scenario_world = (Inr (), w0) \<and>
      trace w0 = trace scenario_world @
        RepoCall (ListOperations (queued_query None None None []) None) # rest \<and>
      set (processed_ids rest) = {0, 1, 2, 3}"
    using r unfolding m by blast
  from a b show ?thesis by simp
qed

subsection \<open>C8\<close>

text \<open>
  Claim C8, amended to documents that carry a context. \<^verbatim>\<open>_execute_operator\<close> first
  calls the resolver, with the document's operator and with request parameters that hold
  the document's id under the key \<^verbatim>\<open>run_doc\<close> and agree with the context's request
  parameters on every other key; no second resolver call follows; and every operator
  execution that follows is given a context whose request parameters hold the id under
  that key.
\<close>

theorem run_doc_injected_before_resolution:
  assumes ctx: "exec_context d = Some c"
  shows "\<exists>r w' ps rest.
      execute_operator resolve d w = (r, w') \<and>
      trace w' = trace w @ Prepare (operator d) ps # rest \<and>
      map_of ps ''run_doc'' = Some (IdVal (doc_id d)) \<and>
      (\<forall>k. k \<noteq> ''run_doc'' \<longrightarrow> map_of ps k = map_of (request_params c) k) \<and>
      filter is_prepare rest = [] \<and>
      (\<forall>i x. Execute i x \<in> set rest \<longrightarrow>
         map_of (request_params x) ''run_doc'' = Some (IdVal (doc_id d)))"
proof -
  define ps where "ps = AList.update ''run_doc'' (IdVal (doc_id d)) (request_params c)"
  define w1 where "w1 = emit (Prepare (operator d) ps) w"
  have key: "map_of ps ''run_doc'' = Some (IdVal (doc_id d))"
    "\<forall>k. k \<noteq> ''run_doc'' \<longrightarrow> map_of ps k = map_of (request_params c) k"
    by (simp_all add: ps_def)
  have goal: "\<exists>r w' ps rest.
      execute_operator resolve d w = (r, w') \<and>
      trace w' = trace w @ Prepare (operator d) ps # rest \<and>
      map_of ps ''run_doc'' = Some (IdVal (doc_id d)) \<and>
      (\<forall>k. k \<noteq> ''run_doc'' \<longrightarrow> map_of ps k = map_of (request_params c) k) \<and>
      filter is_prepare rest = [] \<and>
      (\<forall>i x. Execute i x \<in> set rest \<longrightarrow>
         map_of (request_params x) ''run_doc'' = Some (IdVal (doc_id d)))"
    if "execute_operator resolve d w = (r, w')" "trace w' = trace w @ Prepare (operator d) ps # rest"
      "filter is_prepare rest = []"
      "\<forall>i x. Execute i x \<in> set rest \<longrightarrow> x = \<lparr>request_params = ps\<rparr>" for r w' rest
  proof -
    have "map_of (request_params x) ''run_doc'' = Some (IdVal (doc_id d))"
      if "Execute i x \<in> set rest" for i x
    proof -
      from that \<open>\<forall>i x. Execute i x \<in> set rest \<longrightarrow> x = \<lparr>request_params = ps\<rparr>\<close>
      have "x = \<lparr>request_params = ps\<rparr>" by blast
      then show ?thesis using key(1) by simp
    qed
    then show ?thesis
      using that(1,2,3) key by (intro exI[of _ r] exI[of _ w'] exI[of _ ps] exI[of _ rest]) simp
  qed
  show ?thesis
  proof (cases rule: prepare_cases[of resolve "operator d" ps])
    case (raises e)
    then have "execute_operator resolve d w = (Inl e, w1)"
      using ctx by (simp add: execute_operator_def ps_def[symmetric] w1_def[symmetric])
    then show ?thesis by (rule goal[where rest = "[]"]) (simp_all add: w1_def)
  next
    case (invalid x)
    obtain r2 w2 where u: "repo_update_run_state (doc_id d) FAILED (Some x) w1 = (r2, w2)"
      by (cases "repo_update_run_state (doc_id d) FAILED (Some x) w1") auto
    then have "\<exists>r. execute_operator resolve d w = (r, w2)"
      using ctx invalid
      by (cases r2) (simp_all add: execute_operator_def ps_def[symmetric] w1_def[symmetric] set_failed_def)
    then obtain r where "execute_operator resolve d w = (r, w2)" by blast
    then show ?thesis
      by (rule goal[where rest = "[RepoCall (UpdateRunState (doc_id d) FAILED (Some x))]"])
         (simp_all add: update_trace[OF u] w1_def)
  next
    case (resolved opr)
    obtain r2 w2 where u: "repo_update_run_state (doc_id d) RUNNING None w1 = (r2, w2)"
      by (cases "repo_update_run_state (doc_id d) RUNNING None w1") auto
    show ?thesis
    proof (cases r2)
      case (Inl e)
      then have "execute_operator resolve d w = (Inl e, w2)"
        using ctx resolved u
        by (simp add: execute_operator_def ps_def[symmetric] w1_def[symmetric] set_running_def)
      then show ?thesis
        by (rule goal[where rest = "[RepoCall (UpdateRunState (doc_id d) RUNNING None)]"])
           (simp_all add: update_trace[OF u] w1_def)
    next
      case (Inr y)
      then have "execute_operator resolve d w =
          (opr \<lparr>request_params = ps\<rparr>, emit (Execute (doc_id d) \<lparr>request_params = ps\<rparr>) w2)"
        using ctx resolved u
        by (cases "opr \<lparr>request_params = ps\<rparr>")
           (simp_all add: execute_operator_def ps_def[symmetric] w1_def[symmetric] set_running_def)
      then show ?thesis
        by (rule goal[where rest = "[RepoCall (UpdateRunState (doc_id d) RUNNING None),
                                      Execute (doc_id d) \<lparr>request_params = ps\<rparr>]"])
           (simp_all add: update_trace[OF u] w1_def)
    qed
  qed
qed

text \<open>
  The claim as stated, for every document, fails on a document without a context (the
  default of \<^verbatim>\<open>queue_operation\<close>): the method raises AttributeError before it reaches
  the resolver, so no resolver call with the injected key is made.
\<close>

theorem no_context_no_injection:
  "\<not> (\<exists>r w' ps rest.
        execute_operator scenario_resolver (queued_doc 3 ''echo'' None) scenario_world = (r, w') \<and>
        trace w' = trace scenario_world @ Prepare ''echo'' ps # rest \<and>
        map_of ps ''run_doc'' = Some (IdVal 3))"
  by (simp add: execute_operator_def queued_doc_def)

text \<open>
  An instance in the scenario.
\<close>

theorem run_doc_injected_before_resolution_witness:
  "\<exists>r w' ps rest.
      execute_operator scenario_resolver
        (queued_doc 0 ''echo'' (Some \<lparr>request_params = [(''msg'', StrVal ''hi'')]\<rparr>)) scenario_world = (r, w') \<and>
      trace w' = trace scenario_world @ Prepare ''echo'' ps # rest \<and>
      map_of ps ''run_doc'' = Some (IdVal 0) \<and>
      map_of ps ''msg'' = Some (StrVal ''hi'') \<and>
      filter is_prepare rest = []"
proof -
  define c where "c = \<lparr>request_params = [(''msg'', StrVal ''hi'')]\<rparr>"
  define d where "d = queued_doc 0 ''echo'' (Some c)"
  have ctx: "exec_context d = Some c" by (simp add: d_def queued_doc_def)
  from run_doc_injected_before_resolution[OF ctx, of scenario_resolver scenario_world]
  obtain r w' ps rest where
    "execute_operator scenario_resolver d scenario_world = (r, w')"
    "trace w' = trace scenario_world @ Prepare (operator d) ps # rest"
    "map_of ps ''run_doc'' = Some (IdVal (doc_id d))"
    "\<forall>k. k \<noteq> ''run_doc'' \<longrightarrow> map_of ps k = map_of (request_params c) k"
    "filter is_prepare rest = []"
    by blast
  then show ?thesis
    unfolding d_def[symmetric] c_def[symmetric]
    by (intro exI[of _ r] exI[of _ w'] exI[of _ ps] exI[of _ rest])
       (simp add: d_def c_def queued_doc_def)
qed

subsection \<open>C9\<close>

text \<open>
  Claim C9. For every input, \<^verbatim>\<open>execute_queued_operations\<close> with \<^verbatim>\<open>log=True\<close> and with
  \<^verbatim>\<open>log=False\<close> end alike (both return, or both raise the same exception), leave the
  same stored documents, and make the same calls to the repository, the resolver and the
  operators in the same order: the two logs of events differ in the log lines only.
\<close>

theorem log_flag_is_observational:
  "fst (execute_queued_operations resolve opr tgt dname lim True kwargs w) =
     fst (execute_queued_operations resolve opr tgt dname lim False kwargs w) \<and>
   docs (snd (execute_queued_operations resolve opr tgt dname lim True kwargs w)) =
     docs (snd (execute_queued_operations resolve opr tgt dname lim False kwargs w)) \<and>
   filter (\<lambda>e. \<not> is_log e) (trace (snd (execute_queued_operations resolve opr tgt dname lim True kwargs w))) =
     filter (\<lambda>e. \<not> is_log e) (trace (snd (execute_queued_operations resolve opr tgt dname lim False kwargs w)))"
proof -
  have "map_prod id unlog (execute_queued_operations resolve opr tgt dname lim True kwargs w) =
        map_prod id unlog (execute_queued_operations resolve opr tgt dname lim False kwargs w)"
    using execute_queued_operations_unlog[of resolve opr tgt dname lim kwargs w True]
      execute_queued_operations_unlog[of resolve opr tgt dname lim kwargs w False] by simp
  then have "fst (execute_queued_operations resolve opr tgt dname lim True kwargs w) =
        fst (execute_queued_operations resolve opr tgt dname lim False kwargs w) \<and>
      unlog (snd (execute_queued_operations resolve opr tgt dname lim True kwargs w)) =
        unlog (snd (execute_queued_operations resolve opr tgt dname lim False kwargs w))"
    by (cases "execute_queued_operations resolve opr tgt dname lim True kwargs w";
        cases "execute_queued_operations resolve opr tgt dname lim False kwargs w") simp
  then show ?thesis by (metis unlog_fields(1) unlog_fields(4))
qed

text \<open>
  An instance in the scenario.
\<close>

theorem log_flag_is_observational_witness:
  "fst (execute_queued_operations scenario_resolver None None None None True [] scenario_world) =
     fst (execute_queued_operations scenario_resolver None None None None False [] scenario_world) \<and>
   docs (snd (execute_queued_operations scenario_resolver None None None None True [] scenario_world)) =
     docs (snd (execute_queued_operations scenario_resolver None None None None False [] scenario_world)) \<and>
   filter (\<lambda>e. \<not> is_log e)
       (trace (snd (execute_queued_operations scenario_resolver None None None None True [] scenario_world))) =
     filter (\<lambda>e. \<not> is_log e)
       (trace (snd (execute_queued_operations scenario_resolver None None None None False [] scenario_world)))"
  by (rule log_flag_is_observational)

subsection \<open>C10\<close>

text \<open>
  Claim C10. For a stored document with a context whose operator resolves and whose entry
  point returns \<open>r\<close>: if the repository raises \<open>e\<close> on the COMPLETED write (and accepts
  the RUNNING write and the FAILED write), the loop iteration returns normally, the
  exception does not reach the caller, and the document is left FAILED with the trace of
  \<open>e\<close> as its result. The run-state writes asked are RUNNING, COMPLETED, FAILED.
\<close>

theorem failed_completion_write_is_caught:
  assumes ctx: "exec_context d = Some c"
    and ps: "ps = AList.update ''run_doc'' (IdVal (doc_id d)) (request_params c)"
    and res: "resolve (operator d) ps = Resolved opr"
    and exe: "opr \<lparr>request_params = ps\<rparr> = Inr r"
    and st: "stored (doc_id d) w = Some d0"
    and nf1: "repo_fault w (UpdateRunState (doc_id d) RUNNING None) = None"
    and flt: "repo_fault w (UpdateRunState (doc_id d) COMPLETED r) = Some e"
    and nf2: "repo_fault w (UpdateRunState (doc_id d) FAILED
                (Some (ExecutionResult None (Some (format_exc e))))) = None"
  shows "\<exists>w'. execute_queued_op resolve log d w = (Inr (), w') \<and>
            stored (doc_id d) w' =
              Some (d0\<lparr>run_state := FAILED,
                       result := Some (ExecutionResult None (Some (format_exc e)))\<rparr>) \<and>
            run_state_updates (drop (length (trace w)) (trace w')) =
              [(doc_id d, RUNNING, None), (doc_id d, COMPLETED, r),
               (doc_id d, FAILED, Some (ExecutionResult None (Some (format_exc e))))]"
proof -
  define fr where "fr = ExecutionResult None (Some (format_exc e))"
  define w0 where "w0 = (if log then emit (LogInfo ''Running operation'' (doc_id d)) w else w)"
  have "stored (doc_id d) w0 = Some d0" "repo_fault w0 (UpdateRunState (doc_id d) RUNNING None) = None"
    using st nf1 by (simp_all add: w0_def)
  from execute_operator_resolved[of d c ps resolve opr w0 d0, OF ctx ps res this] obtain w1 where
    e: "execute_operator resolve d w0 = (Inr r, w1)"
    and w1: "stored (doc_id d) w1 = Some (d0\<lparr>run_state := RUNNING\<rparr>)" "repo_fault w1 = repo_fault w0"
      "trace w1 = trace w0 @ [Prepare (operator d) ps,
                                RepoCall (UpdateRunState (doc_id d) RUNNING None),
                                Execute (doc_id d) \<lparr>request_params = ps\<rparr>]"
    using exe by auto
  have "repo_fault w1 (UpdateRunState (doc_id d) COMPLETED r) = Some e"
    using flt w1(2) by (simp add: w0_def)
  from update_fault_effect[OF this] obtain w2 where
    u: "repo_update_run_state (doc_id d) COMPLETED r w1 = (Inl e, w2)"
    and w2: "stored (doc_id d) w2 = stored (doc_id d) w1" "repo_fault w2 = repo_fault w1"
      "trace w2 = trace w1 @ [RepoCall (UpdateRunState (doc_id d) COMPLETED r)]"
    by blast
  have t: "try_block resolve log d w = (Inl e, w2)"
    using e u by (simp add: try_block_def w0_def[symmetric] set_completed_def)
  have "repo_fault w2 (UpdateRunState (doc_id d) FAILED (Some fr)) = None"
    "stored (doc_id d) w2 = Some (d0\<lparr>run_state := RUNNING\<rparr>)"
    using nf2 w1(1,2) w2(1,2) by (simp_all add: w0_def fr_def)
  from update_ok_effect[OF this] obtain w3 where
    u3: "repo_update_run_state (doc_id d) FAILED (Some fr) w2 =
          (Inr (set_state FAILED (Some fr) (d0\<lparr>run_state := RUNNING\<rparr>)), w3)"
    and w3: "stored (doc_id d) w3 = Some (set_state FAILED (Some fr) (d0\<lparr>run_state := RUNNING\<rparr>))"
      "trace w3 = trace w2 @ [RepoCall (UpdateRunState (doc_id d) FAILED (Some fr))]"
    by blast
  show ?thesis
    unfolding fr_def[symmetric]
    using t u3 w1(3) w2(3) w3
    by (simp add: execute_queued_op_def fr_def[symmetric] set_failed_def w0_def set_state_def)
qed

text \<open>
  An instance in the scenario.
\<close>

theorem failed_completion_write_is_caught_witness:
  "\<exists>w'. execute_queued_op scenario_resolver False
            (queued_doc 0 ''echo'' (Some \<lparr>request_params = [(''msg'', StrVal ''hi'')]\<rparr>)) failing_world =
            (Inr (), w') \<and>
          map_option run_state (stored 0 w') = Some FAILED \<and>
          map_option result (stored 0 w') =
            Some (Some (ExecutionResult None (Some ''OperationFailure: write failed'')))"
proof -
  define c where "c = \<lparr>request_params = [(''msg'', StrVal ''hi'')]\<rparr>"
  define d where "d = queued_doc 0 ''echo'' (Some c)"
  define ps where "ps = AList.update ''run_doc'' (IdVal (doc_id d)) (request_params c)"
  define r where "r = Some (ExecutionResult (Some ps) None)"
  define e where "e = PyException ''OperationFailure: write failed''"
  have ctx: "exec_context d = Some c" by (simp add: d_def queued_doc_def)
  have res: "scenario_resolver (operator d) ps = Resolved echo_operator"
    by (simp add: d_def scenario_defs)
  have exe: "echo_operator \<lparr>request_params = ps\<rparr> = Inr r"
    by (simp add: echo_operator_def r_def)
  have st: "stored (doc_id d) failing_world = Some d"
    by (simp add: d_def c_def stored_def failing_world_def scenario_defs)
  have nf1: "repo_fault failing_world (UpdateRunState (doc_id d) RUNNING None) = None"
    by (simp add: failing_world_def write_failure_def)
  have flt: "repo_fault failing_world (UpdateRunState (doc_id d) COMPLETED r) = Some e"
    by (simp add: failing_world_def write_failure_def e_def)
  have nf2: "repo_fault failing_world (UpdateRunState (doc_id d) FAILED
      (Some (ExecutionResult None (Some (format_exc e))))) = None"
    by (simp add: failing_world_def write_failure_def)
  from failed_completion_write_is_caught
    [of d c ps scenario_resolver echo_operator r failing_world d e False,
     OF ctx ps_def res exe st nf1 flt nf2]
  obtain w' where
    "execute_queued_op scenario_resolver False d failing_world = (Inr (), w')"
    "stored (doc_id d) w' =
       Some (d\<lparr>run_state := FAILED, result := Some (ExecutionResult None (Some (format_exc e)))\<rparr>)"
    by blast
  then show ?thesis
    unfolding d_def[symmetric] c_def[symmetric]
    by (intro exI[of _ w']) (simp add: d_def e_def queued_doc_def)
qed

end
